theory Spec2Isabelle
  imports Main "HOL-Library.Word" "HOL-Library.Sublist"
begin

unbundle bit_operations_syntax

section \<open>Binary primitive codec (data\_conv.c)\<close>

text \<open>
  The codec converts between C objects in host memory and the big-endian byte order of
  the FLV wire format. The source tests the host's byte order at run time
  (\<open>IS_BIG_ENDIAN\<close>) and reads or writes objects through \<open>unsigned char\<close> pointers, so
  the model carries the host's byte order as the parameter \<open>be\<close> and makes the memory
  image of an object explicit: \<open>store be n w\<close> is the sequence of the \<open>n\<close> bytes that
  the \<open>n\<close>-byte object \<open>w\<close> occupies in memory, lowest address first, and \<open>load be m\<close>
  is the object whose image is \<open>m\<close> (the C expression \<open>*(T *)m\<close>).

  A \<open>double\<close> is modelled by its 64-bit IEEE-754 pattern: the codec only moves its
  bytes. Equality of patterns is finer than C's \<open>==\<close> on doubles (which identifies
  the two zeros and makes a NaN differ from itself).

  The decoders read through a raw pointer; the list \<open>ptr\<close> stands for the bytes at and
  after it. Reading fewer bytes than the list holds is the caller's obligation in C
  (the behaviour is undefined otherwise); every caller in this development checks it.
\<close>

type_synonym byte = "8 word"
type_synonym u16 = "16 word"
type_synonym u32 = "32 word"
type_synonym double = "64 word"

definition le_bytes :: "nat \<Rightarrow> 'a::len word \<Rightarrow> byte list" where
  "le_bytes n w = map (\<lambda>k. ucast (drop_bit (8 * k) w)) [0..<n]"

definition be_value :: "byte list \<Rightarrow> 'a::len word" where
  "be_value m = foldl (\<lambda>acc b. push_bit 8 acc OR ucast b) 0 m"

definition store :: "bool \<Rightarrow> nat \<Rightarrow> 'a::len word \<Rightarrow> byte list" where
  "store be n w = (if be then rev (le_bytes n w) else le_bytes n w)"

definition load :: "bool \<Rightarrow> byte list \<Rightarrow> 'a::len word" where
  "load be m = be_value (if be then m else rev m)"

definition conv_double :: "bool \<Rightarrow> byte list \<Rightarrow> double" where
  "conv_double be ptr =
     (if be then load be (take 8 ptr)
      else load be (rev (take 8 ptr)))"

definition conv_ui32 :: "bool \<Rightarrow> byte list \<Rightarrow> u32" where
  "conv_ui32 be ptr =
     (if be then load be (take 4 ptr)
      else load be (rev (take 4 ptr)))"

definition conv_ui24 :: "bool \<Rightarrow> byte list \<Rightarrow> byte \<Rightarrow> u32" where
  "conv_ui24 be ptr highbyte =
     (if be then load be (highbyte # take 3 ptr)
      else load be (rev (take 3 ptr) @ [highbyte]))"

definition conv_ui16 :: "bool \<Rightarrow> byte list \<Rightarrow> u16" where
  "conv_ui16 be ptr =
     (if be then load be (take 2 ptr)
      else load be [ptr ! 1, ptr ! 0])"

definition format_double :: "bool \<Rightarrow> double \<Rightarrow> byte list" where
  "format_double be number =
     (if be then store be 8 number
      else rev (store be 8 number))"

definition format_ui32 :: "bool \<Rightarrow> u32 \<Rightarrow> byte list" where
  "format_ui32 be number =
     (if be then store be 4 number
      else rev (store be 4 number))"

definition format_ui24 :: "bool \<Rightarrow> u32 \<Rightarrow> byte list" where
  "format_ui24 be number =
     (let m = store be 4 number
      in if be then [m ! 1, m ! 2, m ! 3, m ! 0]
         else [m ! 2, m ! 1, m ! 0, m ! 3])"

definition format_ui16 :: "bool \<Rightarrow> u16 \<Rightarrow> byte list" where
  "format_ui16 be number =
     (let m = store be 2 number
      in if be then m
         else [m ! 1, m ! 0])"

section \<open>Packets and script data (flvjoin.h, metadata.c)\<close>

text \<open>
  The C types are taken as on an LP64 platform: \<open>unsigned int\<close> has 32 bits, \<open>long\<close>
  and \<open>size_t\<close> have 64. A conversion from \<open>unsigned int\<close> to \<open>long\<close> is \<open>ucast\<close>
  (the value is kept), the assignment of a \<open>long\<close> to an \<open>unsigned int\<close> is \<open>ucast\<close>
  too (the low 32 bits are kept), and \<open>long\<close> values are compared as signed numbers.

  The field \<open>data\<close> of a packet stands for the buffer that the C pointer refers to, all of
  it: the payload is its first \<open>datasize\<close> bytes, and what lies behind them is what an
  earlier, longer packet left there.
\<close>

type_synonym long = "64 word"
type_synonym size_t = "64 word"

record FLVpacket =
  type :: byte
  datasize :: u32
  timestamp :: u32
  streamid :: u32
  data :: "byte list"
  backptr :: u32

text \<open>
  A read through a pointer that leaves the buffer has no defined behaviour in C. The
  model gives it the result \<open>Out_of_bounds\<close>, so that a result \<open>Inr\<close> stands for a run in
  which every read stayed inside its buffer. \<open>Out_of_fuel\<close> belongs to the recursion
  depth counter of the script-data decoder below; it has no counterpart in the source.
\<close>

datatype fault = Out_of_bounds | Out_of_fuel

type_synonym 'a result = "fault + 'a"

definition peek :: "byte list \<Rightarrow> nat \<Rightarrow> byte result" where
  "peek d pos = (if pos < length d then Inr (d ! pos) else Inl Out_of_bounds)"

definition peek_n :: "byte list \<Rightarrow> nat \<Rightarrow> nat \<Rightarrow> byte list result" where
  "peek_n d pos n = (if pos + n \<le> length d then Inr (take n (drop pos d)) else Inl Out_of_bounds)"

definition c_string :: "string \<Rightarrow> byte list" where
  "c_string s = map of_char s"

text \<open>
  The decoder computes with \<open>double\<close> values. They are kept in the form in which the
  source obtains them, without floating-point arithmetic: \<open>No_number\<close> is the initial
  \<open>-1\<close> of \<open>parse_number\<close>, \<open>Wire_double\<close> a double read from the wire (its bit
  pattern), \<open>Of_byte\<close> and \<open>Of_ui16\<close> the conversion of an integer, and \<open>Date_seconds\<close>
  the quotient \<open>conv_double(...) / 1000\<close> of a date.

  \<open>add_meta_item(name, value)\<close> stores \<open>value\<close> in the field of \<open>struct meta\<close> that \<open>name\<close>
  selects, unless \<open>value == -1\<close>. The model records the calls, in order, as pairs of
  the name (a C string: the bytes before the first NUL) and the value; the content of
  \<open>meta\<close> is a function of this sequence. The warning that \<open>parse_number\<close> prints on an
  unhandled type is recorded likewise, as the type byte it reports; the source prints
  no other diagnostic while decoding.
\<close>

datatype number =
    No_number
  | Wire_double double
  | Of_byte byte
  | Of_ui16 u16
  | Date_seconds double

type_synonym meta_item = "byte list \<times> number"

definition parse_script_string ::
  "byte list \<Rightarrow> nat \<Rightarrow> nat \<Rightarrow> bool \<Rightarrow> (nat \<times> byte list) result" where
  "parse_script_string d pos string_length buff =
     (if buff then
        (if 1024 \<le> string_length then Inl Out_of_bounds
         else case peek_n d pos string_length of
                Inl e \<Rightarrow> Inl e
              | Inr bs \<Rightarrow> Inr (pos + string_length, takeWhile (\<lambda>b. b \<noteq> 0) bs))
      else Inr (pos + string_length, []))"

definition named_string :: "bool \<Rightarrow> byte list \<Rightarrow> nat \<Rightarrow> (nat \<times> byte list) result" where
  "named_string be d pos =
     (case peek_n d pos 2 of
        Inl e \<Rightarrow> Inl e
      | Inr len \<Rightarrow> parse_script_string d (pos + 2) (unat (conv_ui16 be len)) True)"

text \<open>
  \<open>parse_number\<close> reads the type byte and switches on it. The cases that read a value
  of fixed layout are collected in \<open>parse_scalar\<close> (\<open>pos\<close> is the position behind the
  type byte); the cases that recur (a script object, an ECMA array, a script array) are
  in \<open>parse_number\<close> itself, with the two \<open>for\<close> loops as \<open>ecma_array\<close> and
  \<open>script_array\<close>, which count the remaining iterations. The first argument after the
  byte order bounds the depth of the recursion.
\<close>

definition parse_scalar ::
  "bool \<Rightarrow> byte list \<Rightarrow> nat \<Rightarrow> byte
     \<Rightarrow> (number \<times> nat \<times> meta_item list \<times> byte list) result" where
  "parse_scalar be d pos variable_type =
     (if variable_type = 0 then
        (case peek_n d pos 8 of
           Inl e \<Rightarrow> Inl e
         | Inr bs \<Rightarrow> Inr (Wire_double (conv_double be bs), pos + 8, [], []))
      else if variable_type = 1 then
        (case peek d pos of
           Inl e \<Rightarrow> Inl e
         | Inr b \<Rightarrow> Inr (Of_byte b, pos + 1, [], []))
      else if variable_type = 2 then
        (case peek_n d pos 2 of
           Inl e \<Rightarrow> Inl e
         | Inr len \<Rightarrow>
             (case parse_script_string d (pos + 2) (unat (conv_ui16 be len)) False of
                Inl e \<Rightarrow> Inl e
              | Inr (pos', name) \<Rightarrow> Inr (No_number, pos', [], [])))
      else if variable_type = 7 then
        (case peek_n d pos 2 of
           Inl e \<Rightarrow> Inl e
         | Inr bs \<Rightarrow> Inr (Of_ui16 (conv_ui16 be bs), pos + 2, [], []))
      else if variable_type = 11 then
        (case peek_n d pos 8 of
           Inl e \<Rightarrow> Inl e
         | Inr bs \<Rightarrow> Inr (Date_seconds (conv_double be bs), pos + 8 + 2, [], []))
      else if variable_type = 12 then
        (case peek_n d pos 4 of
           Inl e \<Rightarrow> Inl e
         | Inr len \<Rightarrow>
             (case parse_script_string d (pos + 2) (unat (conv_ui32 be len)) False of
                Inl e \<Rightarrow> Inl e
              | Inr (pos', name) \<Rightarrow> Inr (No_number, pos', [], [])))
      else Inr (No_number, pos, [], [variable_type]))"

definition closing_bytes :: "byte list \<Rightarrow> nat \<Rightarrow> nat result" where
  "closing_bytes d pos =
     (case peek_n d pos 3 of
        Inl e \<Rightarrow> Inl e
      | Inr closing \<Rightarrow> Inr (if closing = [0, 0, 9] then pos + 3 else pos))"

function (sequential) parse_number ::
    "bool \<Rightarrow> nat \<Rightarrow> byte list \<Rightarrow> nat \<Rightarrow> (number \<times> nat \<times> meta_item list \<times> byte list) result"
  and parse_script_object ::
    "bool \<Rightarrow> nat \<Rightarrow> byte list \<Rightarrow> nat \<Rightarrow> (nat \<times> meta_item list \<times> byte list) result"
  and ecma_array ::
    "bool \<Rightarrow> nat \<Rightarrow> byte list \<Rightarrow> nat \<Rightarrow> nat \<Rightarrow> (nat \<times> meta_item list \<times> byte list) result"
  and script_array ::
    "bool \<Rightarrow> nat \<Rightarrow> byte list \<Rightarrow> nat \<Rightarrow> number \<Rightarrow> nat
       \<Rightarrow> (number \<times> nat \<times> meta_item list \<times> byte list) result"
where
  "parse_number be 0 d pos = Inl Out_of_fuel"
| "parse_number be (Suc n) d pos =
     (case peek d pos of
        Inl e \<Rightarrow> Inl e
      | Inr variable_type \<Rightarrow>
          if variable_type = 3 then
            (case parse_script_object be n d (pos + 1) of
               Inl e \<Rightarrow> Inl e
             | Inr (pos', items, warnings) \<Rightarrow> Inr (No_number, pos', items, warnings))
          else if variable_type = 8 then
            (case peek_n d (pos + 1) 4 of
               Inl e \<Rightarrow> Inl e
             | Inr bs \<Rightarrow>
                 (case ecma_array be n d (nat (sint (conv_ui32 be bs))) (pos + 1 + 4) of
                    Inl e \<Rightarrow> Inl e
                  | Inr (pos', items, warnings) \<Rightarrow> Inr (No_number, pos', items, warnings)))
          else if variable_type = 10 then
            (case peek_n d (pos + 1) 4 of
               Inl e \<Rightarrow> Inl e
             | Inr bs \<Rightarrow>
                 script_array be n d (nat (sint (conv_ui32 be bs))) No_number (pos + 1 + 4))
          else parse_scalar be d (pos + 1) variable_type)"
| "parse_script_object be n d pos =
     (case peek d pos of
        Inl e \<Rightarrow> Inl e
      | Inr marker \<Rightarrow>
          (case named_string be d (if marker \<noteq> 2 then pos else pos + 1) of
             Inl e \<Rightarrow> Inl e
           | Inr (pos1, buff) \<Rightarrow>
               (case parse_number be n d pos1 of
                  Inl e \<Rightarrow> Inl e
                | Inr (val, pos2, items, warnings) \<Rightarrow>
                    (case closing_bytes d pos2 of
                       Inl e \<Rightarrow> Inl e
                     | Inr pos3 \<Rightarrow> Inr (pos3, items @ [(buff, val)], warnings)))))"
| "ecma_array be n d 0 pos = Inr (pos, [], [])"
| "ecma_array be n d (Suc count) pos =
     (case named_string be d pos of
        Inl e \<Rightarrow> Inl e
      | Inr (pos1, buff) \<Rightarrow>
          (case parse_number be n d pos1 of
             Inl e \<Rightarrow> Inl e
           | Inr (val, pos2, items, warnings) \<Rightarrow>
               (case ecma_array be n d count pos2 of
                  Inl e \<Rightarrow> Inl e
                | Inr (pos3, items', warnings') \<Rightarrow>
                    Inr (pos3, items @ [(buff, val)] @ items', warnings @ warnings'))))"
| "script_array be n d 0 value pos = Inr (value, pos, [], [])"
| "script_array be n d (Suc count) value pos =
     (case parse_number be n d pos of
        Inl e \<Rightarrow> Inl e
      | Inr (val, pos1, items, warnings) \<Rightarrow>
          (case script_array be n d count val pos1 of
             Inl e \<Rightarrow> Inl e
           | Inr (val', pos2, items', warnings') \<Rightarrow>
               Inr (val', pos2, items @ items', warnings @ warnings')))"
  by pat_completeness auto
termination
  by (relation "measures
       [\<lambda>x. case x of
            Inl (Inl (be, n, d, pos)) \<Rightarrow> 2 * n
          | Inl (Inr (be, n, d, pos)) \<Rightarrow> 2 * n + 1
          | Inr (Inl (be, n, d, count, pos)) \<Rightarrow> 2 * n + 1
          | Inr (Inr (be, n, d, count, value, pos)) \<Rightarrow> 2 * n + 1,
        \<lambda>x. case x of
            Inl (Inl (be, n, d, pos)) \<Rightarrow> 0
          | Inl (Inr (be, n, d, pos)) \<Rightarrow> 0
          | Inr (Inl (be, n, d, count, pos)) \<Rightarrow> count
          | Inr (Inr (be, n, d, count, value, pos)) \<Rightarrow> count]") auto

text \<open>
  \<open>extract_metadata\<close> skips the marker byte and decodes name/value pairs while
  \<open>pos - packet->data <= packet->datasize - 6\<close>. The right-hand side is computed in
  \<open>unsigned int\<close> (it wraps around when \<open>datasize < 6\<close>) and compared as a \<open>long\<close>.
  The first numeric argument of \<open>extract_loop\<close> bounds the number of iterations; with
  the bounds that \<open>extract_metadata\<close> passes, neither bound is ever reached
  (\<open>extract_metadata_fault\<close> below).
\<close>

fun extract_loop ::
  "bool \<Rightarrow> nat \<Rightarrow> byte list \<Rightarrow> u32 \<Rightarrow> nat \<Rightarrow> bool
     \<Rightarrow> (bool \<times> meta_item list \<times> byte list) result" where
  "extract_loop be 0 d dsz pos found_metadata_marker =
     (if int pos \<le> uint (dsz - 6) then Inl Out_of_fuel
      else Inr (found_metadata_marker, [], []))"
| "extract_loop be (Suc k) d dsz pos found_metadata_marker =
     (if int pos \<le> uint (dsz - 6) then
        (case named_string be d pos of
           Inl e \<Rightarrow> Inl e
         | Inr (pos1, buff) \<Rightarrow>
             (case parse_number be (Suc (length d)) d pos1 of
                Inl e \<Rightarrow> Inl e
              | Inr (val, pos2, items, warnings) \<Rightarrow>
                  (case extract_loop be k d dsz pos2
                          (found_metadata_marker \<or> buff = c_string ''onMetaData'') of
                     Inl e \<Rightarrow> Inl e
                   | Inr (found, items', warnings') \<Rightarrow>
                       Inr (found, items @ [(buff, val)] @ items', warnings @ warnings'))))
      else Inr (found_metadata_marker, [], []))"

definition extract_metadata ::
  "bool \<Rightarrow> FLVpacket \<Rightarrow> (bool \<times> meta_item list \<times> byte list) result" where
  "extract_metadata be packet =
     (if type packet \<noteq> 18 then Inr (False, [], [])
      else case peek (data packet) 0 of
             Inl e \<Rightarrow> Inl e
           | Inr marker \<Rightarrow>
               extract_loop be (Suc (length (data packet))) (data packet) (datasize packet)
                 (if marker \<noteq> 2 then 0 else 1) False)"

section \<open>The join engine (flvjoin.c)\<close>

text \<open>
  The global and function-static variables of flvjoin.c form the record \<open>state\<close>:
  \<^item> \<open>outfile\<close>: the tags written to the output behind the 13-byte file header, in
    order; a tag is the packet as \<open>write_packet\<close> writes it, with the rewritten
    timestamp and with \<open>data\<close> cut to the payload (\<open>tag_bytes\<close> gives its bytes);
  \<^item> \<open>seq_header_pkt\<close>: the cached sequence header, \<open>None\<close> while its \<open>data\<close> pointer
    is \<open>NULL\<close>;
  \<^item> \<open>last_video_timestamp\<close>, \<open>last_audio_timestamp\<close>, \<open>last_packet_size\<close>;
  \<^item> \<open>first_time\<close>, \<open>metadata_extracted\<close>, \<open>buff\<close> (empty while the pointer is
    \<open>NULL\<close>; \<open>buffsize\<close> is its length once allocated) and \<open>packet_data\<close> (the buffer
    behind the static \<open>packet.data\<close>; \<open>max_datasize\<close> is its length) of \<open>append_file\<close>;
  \<^item> \<open>pktarray\<close> of \<open>buffer_packet\<close> (\<open>packets\<close> is its length);
  \<^item> \<open>meta_items\<close>: the calls of \<open>add_meta_item\<close> made so far.
  The variables local to one call of \<open>append_file\<close> form the record \<open>locals\<close>. Of the
  options, \<open>quiet\<close> only concerns messages on the standard error stream, which are not
  part of the model. An \<open>int\<close> like \<open>frame_interval\<close> only occurs in unsigned
  arithmetic and is given as its 32-bit pattern. Memory that \<open>malloc\<close> or \<open>realloc\<close>
  hands out has unspecified content: \<open>heap_junk\<close> supplies it, byte by byte. Allocation
  is taken to succeed with a pointer other than \<open>NULL\<close>, also for a size of 0, and writes
  to the output are taken to succeed.
\<close>

record state =
  outfile :: "FLVpacket list"
  seq_header_pkt :: "FLVpacket option"
  last_video_timestamp :: u32
  last_audio_timestamp :: long
  last_packet_size :: u32
  first_time :: bool
  metadata_extracted :: bool
  buff :: "byte list"
  packet_data :: "byte list"
  pktarray :: "FLVpacket list"
  meta_items :: "meta_item list"

record config =
  big_endian :: bool
  no_meta :: bool
  frame_interval :: u32
  heap_junk :: "nat \<Rightarrow> byte"

definition payload :: "FLVpacket \<Rightarrow> byte list" where
  "payload packet = take (unat (datasize packet)) (data packet)"

definition tag_bytes :: "bool \<Rightarrow> FLVpacket \<Rightarrow> byte list" where
  "tag_bytes be packet =
     [type packet] @ take 3 (format_ui24 be (datasize packet))
     @ take 4 (format_ui24 be (timestamp packet))
     @ take 3 (format_ui24 be (streamid packet))
     @ payload packet
     @ take 4 (format_ui32 be (backptr packet))"

definition write_packet :: "FLVpacket \<Rightarrow> long \<Rightarrow> state \<Rightarrow> state" where
  "write_packet packet file_start_timestamp s =
     (let new_timestamp = (ucast ((ucast (timestamp packet) :: long) + file_start_timestamp) :: u32)
      in if type packet = 8 \<and> (ucast new_timestamp :: long) \<le>s last_audio_timestamp s then s
         else s\<lparr>outfile := outfile s @ [packet\<lparr>timestamp := new_timestamp, data := payload packet\<rparr>],
                last_video_timestamp :=
                  (if type packet = 9 then new_timestamp else last_video_timestamp s),
                last_audio_timestamp :=
                  (if type packet = 8 then ucast new_timestamp else last_audio_timestamp s),
                last_packet_size := datasize packet\<rparr>)"

text \<open>
  The loop of \<open>buffer_packet\<close> that flushes the array: before the first video packet it
  meets while a sequence header is cached, it writes the sequence header with that
  packet's timestamp and releases it.
\<close>

fun flush_loop :: "FLVpacket list \<Rightarrow> long \<Rightarrow> state \<Rightarrow> state" where
  "flush_loop [] file_start_timestamp s = s"
| "flush_loop (p # ps) file_start_timestamp s =
     (let s1 = (case seq_header_pkt s of
                  None \<Rightarrow> s
                | Some header \<Rightarrow>
                    if type p = 9 then
                      (write_packet (header\<lparr>timestamp := timestamp p\<rparr>) file_start_timestamp s)
                        \<lparr>seq_header_pkt := None\<rparr>
                    else s)
      in flush_loop ps file_start_timestamp (write_packet p file_start_timestamp s1))"

definition buffer_packet :: "FLVpacket \<Rightarrow> long \<Rightarrow> bool \<Rightarrow> state \<Rightarrow> state" where
  "buffer_packet packet file_start_timestamp flush s =
     (let array = pktarray s @ [packet\<lparr>data := payload packet\<rparr>]
      in if flush then (flush_loop array file_start_timestamp s)\<lparr>pktarray := []\<rparr>
         else s\<lparr>pktarray := array\<rparr>)"

text \<open>
  The body of the loop of \<open>append_file\<close> behind the reading of a packet, in three
  parts: script data, the capture of a sequence header, and the rest
  (\<open>route_packet\<close>: trimming at the marks, key frame detection, and the choice between
  buffering and writing). The tests that read \<open>packet.data[0]\<close> and \<open>packet.data[1]\<close>
  are evaluated from left to right as in C, so a byte is only read when the tests
  before it have passed.
\<close>

record locals =
  file_start_timestamp :: long
  first_keyframe_timestamp :: long

definition is_sequence_header :: "state \<Rightarrow> FLVpacket \<Rightarrow> bool result" where
  "is_sequence_header s packet =
     (if seq_header_pkt s \<noteq> None \<or> type packet \<noteq> 9 then Inr False
      else case peek (data packet) 0 of
             Inl e \<Rightarrow> Inl e
           | Inr b0 \<Rightarrow>
               if b0 AND 0x0f \<noteq> 7 then Inr False
               else case peek (data packet) 1 of
                      Inl e \<Rightarrow> Inl e
                    | Inr b1 \<Rightarrow> Inr (b1 = 0))"

definition is_key_frame :: "FLVpacket \<Rightarrow> bool result" where
  "is_key_frame packet =
     (if type packet = 8 then Inr True
      else case peek (data packet) 0 of
             Inl e \<Rightarrow> Inl e
           | Inr b0 \<Rightarrow> Inr (drop_bit 4 (b0 AND 0xf0) = 1))"

definition route_packet ::
  "config \<Rightarrow> u32 \<Rightarrow> u32 \<Rightarrow> u32 \<Rightarrow> FLVpacket \<Rightarrow> state \<times> locals \<Rightarrow> (state \<times> locals) result" where
  "route_packet cfg mark_in mark_out lastfile_video_timestamp packet sl =
     (let (s, l) = sl
      in if timestamp packet < mark_in \<or> mark_out \<le> timestamp packet
            \<or> (type packet \<noteq> 8 \<and> type packet \<noteq> 9) then Inr (s, l)
         else
           case is_key_frame packet of
             Inl e \<Rightarrow> Inl e
           | Inr key_frame \<Rightarrow>
               let l1 = (if first_keyframe_timestamp l = - 1 \<and> key_frame
                         then l\<lparr>first_keyframe_timestamp := ucast (timestamp packet)\<rparr>
                         else l)
               in if file_start_timestamp l1 = - 999999 then
                    if type packet = 9 then
                      if key_frame then
                        let start = (if first_time s then - first_keyframe_timestamp l1
                                     else ucast (lastfile_video_timestamp + frame_interval cfg
                                                 - timestamp packet))
                        in Inr (buffer_packet packet start True (s\<lparr>first_time := False\<rparr>),
                                l1\<lparr>file_start_timestamp := start\<rparr>)
                      else Inr (s, l1)
                    else Inr (buffer_packet packet (- 1) False s, l1)
                  else Inr (write_packet packet (file_start_timestamp l1) s, l1))"

definition handle_packet ::
  "config \<Rightarrow> u32 \<Rightarrow> u32 \<Rightarrow> u32 \<Rightarrow> FLVpacket \<Rightarrow> state \<times> locals \<Rightarrow> (state \<times> locals) result" where
  "handle_packet cfg mark_in mark_out lastfile_video_timestamp packet sl =
     (let (s, l) = sl
      in if type packet = 18 then
           if \<not> metadata_extracted s \<and> \<not> no_meta cfg then
             (case extract_metadata (big_endian cfg) packet of
                Inl e \<Rightarrow> Inl e
              | Inr (found, items, warnings) \<Rightarrow>
                  Inr (s\<lparr>metadata_extracted := found, meta_items := meta_items s @ items\<rparr>, l))
           else Inr (s, l)
         else
           case is_sequence_header s packet of
             Inl e \<Rightarrow> Inl e
           | Inr True \<Rightarrow> Inr (s\<lparr>seq_header_pkt := Some (packet\<lparr>data := payload packet\<rparr>)\<rparr>, l)
           | Inr False \<Rightarrow>
               route_packet cfg mark_in mark_out lastfile_video_timestamp packet (s, l))"

text \<open>
  An input file is a sequence of bytes read from front to back. \<open>fread\<close> delivers as
  many of the requested bytes as are left and sets the end-of-file indicator when they
  are fewer than requested; \<open>feof\<close> reads the indicator. Read errors are not
  modelled. \<open>overwrite\<close> is the effect of reading bytes into a buffer at an offset,
  \<open>grow\<close> that of \<open>malloc\<close> and \<open>realloc\<close> to a larger size.
\<close>

record infile =
  remaining :: "byte list"
  at_eof :: bool

definition fread :: "nat \<Rightarrow> infile \<Rightarrow> byte list \<times> infile" where
  "fread n f =
     (take n (remaining f),
      f\<lparr>remaining := drop n (remaining f), at_eof := (at_eof f \<or> length (remaining f) < n)\<rparr>)"

definition overwrite :: "byte list \<Rightarrow> nat \<Rightarrow> byte list \<Rightarrow> byte list" where
  "overwrite buffer offset bytes = take offset buffer @ bytes @ drop (offset + length bytes) buffer"

definition grow :: "(nat \<Rightarrow> byte) \<Rightarrow> byte list \<Rightarrow> nat \<Rightarrow> byte list" where
  "grow junk buffer n = buffer @ map junk [length buffer ..< n]"

text \<open>
  The first part of the loop body of \<open>append_file\<close>: read the 11-byte tag header, then
  the payload and the back pointer. The result \<open>None\<close> is the \<open>break\<close> at a read of
  zero bytes. The source does not look at the other return values of \<open>fread\<close>: after a
  short read the fields are taken from what the buffers held before.
\<close>

definition read_packet ::
  "config \<Rightarrow> state \<Rightarrow> infile \<Rightarrow> (FLVpacket \<times> state \<times> infile) option result" where
  "read_packet cfg s f =
     (if length (buff s) < 11 then Inl Out_of_bounds
      else
        let (header, f1) = fread 11 f
        in if header = [] then Inr None
           else
             let be = big_endian cfg;
                 b = overwrite (buff s) 0 header;
                 size = conv_ui24 be (drop 1 b) 0;
                 d = (if length (packet_data s) < unat size
                      then grow (heap_junk cfg) (packet_data s) (unat size)
                      else packet_data s);
                 (bytes, f2) = fread (unat size) f1;
                 d' = overwrite d 0 bytes;
                 (back, f3) = fread 4 f2;
                 b' = overwrite b 0 back;
                 packet = \<lparr>type = b ! 0, datasize = size,
                           timestamp = conv_ui24 be (drop 4 b) (b ! 7),
                           streamid = conv_ui24 be (drop 8 b) 0,
                           data = d', backptr = conv_ui32 be b'\<rparr>
             in Inr (Some (packet, s\<lparr>buff := b', packet_data := d'\<rparr>, f3)))"

function append_loop ::
  "config \<Rightarrow> u32 \<Rightarrow> u32 \<Rightarrow> u32 \<Rightarrow> state \<times> locals \<Rightarrow> infile \<Rightarrow> (state \<times> locals) result" where
  "append_loop cfg mark_in mark_out lastfile_video_timestamp sl f =
     (if at_eof f then Inr sl
      else
        case read_packet cfg (fst sl) f of
          Inl e \<Rightarrow> Inl e
        | Inr None \<Rightarrow> Inr sl
        | Inr (Some (packet, s1, f1)) \<Rightarrow>
            (case handle_packet cfg mark_in mark_out lastfile_video_timestamp packet (s1, snd sl) of
               Inl e \<Rightarrow> Inl e
             | Inr sl' \<Rightarrow> append_loop cfg mark_in mark_out lastfile_video_timestamp sl' f1))"
  by pat_completeness auto
termination
proof (relation "measure (\<lambda>(cfg, mark_in, mark_out, lastfile_video_timestamp, sl, f).
                    length (remaining f))")
  show "wf (measure (\<lambda>(cfg, mark_in, mark_out, lastfile_video_timestamp, sl, f).
                    length (remaining f)))"
    by simp
next
  fix cfg :: config and mark_in mark_out lastfile_video_timestamp :: u32
    and sl sl' :: "state \<times> locals" and f f1 :: infile and x2 x2a y packet s1
  assume "read_packet cfg (fst sl) f = Inr x2" and "x2 = Some x2a" and "(packet, y) = x2a"
    and "(s1, f1) = y"
  then have r: "read_packet cfg (fst sl) f = Inr (Some (packet, s1, f1))"
    by simp
  then have "remaining f \<noteq> []"
    by (auto simp add: read_packet_def fread_def Let_def split: if_splits prod.splits)
  moreover from r have "remaining f1 = drop 4 (drop (unat (conv_ui24 (big_endian cfg)
      (drop 1 (overwrite (buff (fst sl)) 0 (take 11 (remaining f)))) 0)) (drop 11 (remaining f)))"
    by (auto simp add: read_packet_def fread_def Let_def split: if_splits prod.splits)
  ultimately have "length (remaining f1) < length (remaining f)"
    by (cases "remaining f") auto
  then show "((cfg, mark_in, mark_out, lastfile_video_timestamp, sl', f1),
              (cfg, mark_in, mark_out, lastfile_video_timestamp, sl, f))
             \<in> measure (\<lambda>(cfg, mark_in, mark_out, lastfile_video_timestamp, sl, f).
                    length (remaining f))"
    by simp
qed

text \<open>
  \<open>append_file\<close>. An entry of the input list is the content of the file (\<open>None\<close> when
  it cannot be opened) with the two marks in milliseconds, as \<open>main\<close> passes them. The
  length of the rest of the header is computed in \<open>size_t\<close> and wraps around when the
  header length field is less than 9 (the sum \<open>header_length + 4\<close> cannot: the field has
  32 bits); what is read must fit into \<open>buff\<close> behind its first 9 bytes.
\<close>

definition append_file ::
  "config \<Rightarrow> byte list option \<times> u32 \<times> u32 \<Rightarrow> state \<Rightarrow> state result" where
  "append_file cfg entry s =
     (let (file, mark_in, mark_out) = entry;
          l = \<lparr>file_start_timestamp = - 999999, first_keyframe_timestamp = - 1\<rparr>;
          lastfile_video_timestamp = last_video_timestamp s
      in case file of
           None \<Rightarrow> Inr s
         | Some content \<Rightarrow>
             let b0 = (if buff s = [] then grow (heap_junk cfg) [] 13 else buff s);
                 (signature, f1) = fread 9 \<lparr>remaining = content, at_eof = False\<rparr>;
                 b1 = overwrite b0 0 signature
             in if length signature \<noteq> 9 then Inr (s\<lparr>buff := b1\<rparr>)
                else if take 3 b1 = c_string ''FLV'' then
                  let header_length = (ucast (conv_ui32 (big_endian cfg) (drop 5 b1)) :: size_t);
                      b2 = (if length b1 < unat header_length + 4
                            then grow (heap_junk cfg) b1 (unat header_length + 4) else b1);
                      extra_length = header_length - 9;
                      (extra, f2) = fread (unat (extra_length + 4)) f1
                  in if length b2 < 9 + length extra then Inl Out_of_bounds
                     else map_sum id fst
                            (append_loop cfg mark_in mark_out lastfile_video_timestamp
                               (s\<lparr>buff := overwrite b2 9 extra\<rparr>, l) f2)
                else map_sum id fst
                       (append_loop cfg mark_in mark_out lastfile_video_timestamp
                          (s\<lparr>buff := b1\<rparr>, l) \<lparr>remaining = content, at_eof = False\<rparr>))"

text \<open>
  \<open>generate_metadata_packet\<close> (metadata.c) builds the placeholder \<open>onMetaData\<close> tag:
  every number is the double 0, whose eight bytes are zero.
\<close>

definition put_string :: "bool \<Rightarrow> string \<Rightarrow> byte list" where
  "put_string be string = format_ui16 be (of_nat (length string)) @ c_string string"

definition put_double :: "bool \<Rightarrow> double \<Rightarrow> byte list" where
  "put_double be number = 0 # format_double be number"

definition put_boolean :: "byte \<Rightarrow> byte list" where
  "put_boolean v = [1, v]"

definition generate_metadata_packet :: "bool \<Rightarrow> FLVpacket" where
  "generate_metadata_packet be =
     (let tmp = [2] @ put_string be ''onMetaData'' @ [8] @ format_ui32 be 11
                @ put_string be ''duration'' @ put_double be 0
                @ put_string be ''width'' @ put_double be 0
                @ put_string be ''height'' @ put_double be 0
                @ put_string be ''framerate'' @ put_double be 0
                @ put_string be ''videocodecid'' @ put_double be 0
                @ put_string be ''audiosamplerate'' @ put_double be 0
                @ put_string be ''audiosamplesize'' @ put_double be 0
                @ put_string be ''stereo'' @ put_boolean 0
                @ put_string be ''audiocodecid'' @ put_double be 0
                @ put_string be ''filesize'' @ put_double be 0
                @ put_string be ''metadatacreator'' @ [2] @ put_string be ''flvjoin v0.92''
                @ [0, 0, 9]
      in \<lparr>type = 18, datasize = of_nat (length tmp), timestamp = 0, streamid = 0,
          data = tmp, backptr = of_nat (length tmp) + 11\<rparr>)"

text \<open>
  \<open>main\<close>, from the opening of the output to the end of the input list: the file
  header, the placeholder metadata tag unless \<open>no_meta\<close> is set, and one call of
  \<open>append_file\<close> for each line of the input. The patch of the metadata tag that follows
  (\<open>write_metadata\<close>) computes and stores doubles and is not part of the model.
\<close>

definition initial_state :: state where
  "initial_state =
     \<lparr>outfile = [], seq_header_pkt = None, last_video_timestamp = 0,
      last_audio_timestamp = - 1, last_packet_size = 0, first_time = True,
      metadata_extracted = False, buff = [], packet_data = [], pktarray = [],
      meta_items = []\<rparr>"

fun append_files ::
  "config \<Rightarrow> (byte list option \<times> u32 \<times> u32) list \<Rightarrow> state \<Rightarrow> state result" where
  "append_files cfg [] s = Inr s"
| "append_files cfg (entry # entries) s =
     (case append_file cfg entry s of
        Inl e \<Rightarrow> Inl e
      | Inr s' \<Rightarrow> append_files cfg entries s')"

definition main :: "config \<Rightarrow> (byte list option \<times> u32 \<times> u32) list \<Rightarrow> state result" where
  "main cfg entries =
     append_files cfg entries
       (if no_meta cfg then initial_state
        else write_packet (generate_metadata_packet (big_endian cfg)) 0 initial_state)"

section \<open>Notions used to state the properties\<close>

text \<open>
  \<open>retime start packet\<close> is the tag that \<open>write_packet\<close> appends to the output for
  \<open>packet\<close> when it does not drop it. \<open>audio_timestamps\<close> lists the timestamps of the
  audio tags of an output, in order. \<open>handle_packets\<close> runs the body of the loop of
  \<open>append_file\<close> over packets that have been read already.
\<close>

definition retime :: "long \<Rightarrow> FLVpacket \<Rightarrow> FLVpacket" where
  "retime start packet =
     packet\<lparr>timestamp := timestamp packet + ucast start, data := payload packet\<rparr>"

definition audio_timestamps :: "FLVpacket list \<Rightarrow> u32 list" where
  "audio_timestamps tags = map timestamp (filter (\<lambda>p. type p = 8) tags)"

definition audio_inv :: "state \<Rightarrow> bool" where
  "audio_inv s \<longleftrightarrow>
     sorted_wrt (<) (audio_timestamps (outfile s))
     \<and> last_audio_timestamp s =
         (if audio_timestamps (outfile s) = [] then - 1
          else ucast (last (audio_timestamps (outfile s))))"

fun handle_packets ::
  "config \<Rightarrow> u32 \<Rightarrow> u32 \<Rightarrow> u32 \<Rightarrow> FLVpacket list \<Rightarrow> state \<times> locals \<Rightarrow> (state \<times> locals) result" where
  "handle_packets cfg mark_in mark_out lastfile_video_timestamp [] sl = Inr sl"
| "handle_packets cfg mark_in mark_out lastfile_video_timestamp (packet # packets) sl =
     (case handle_packet cfg mark_in mark_out lastfile_video_timestamp packet sl of
        Inl e \<Rightarrow> Inl e
      | Inr sl' \<Rightarrow> handle_packets cfg mark_in mark_out lastfile_video_timestamp packets sl')"

text \<open>
  \<open>non_overlapping start last_audio packets\<close> are the audio packets of a buffer that
  a flush with the offset \<open>start\<close> writes: those whose timestamp plus the offset, modulo
  \<open>2^32\<close>, is greater than that of the audio packet written before, \<open>last_audio\<close> at
  first.
\<close>

fun non_overlapping :: "long \<Rightarrow> int \<Rightarrow> FLVpacket list \<Rightarrow> FLVpacket list" where
  "non_overlapping start last_audio [] = []"
| "non_overlapping start last_audio (q # qs) =
     (let t = (uint (timestamp q) + sint start) mod 2 ^ 32
      in if t \<le> last_audio then non_overlapping start last_audio qs
         else q # non_overlapping start t qs)"

text \<open>
  \<open>after_header cfg content\<close> is the input stream as \<open>append_file\<close> hands it to its
  loop: behind the FLV header and the first back pointer when \<open>content\<close> starts with
  the signature, rewound to the start otherwise.
\<close>

definition after_header :: "config \<Rightarrow> byte list \<Rightarrow> infile" where
  "after_header cfg content =
     (if take 3 content = c_string ''FLV'' then
        let header_length = (ucast (conv_ui32 (big_endian cfg) (drop 5 content)) :: size_t);
            n = 9 + unat (header_length - 9 + 4)
        in \<lparr>remaining = drop n content, at_eof = (length content < n)\<rparr>
      else \<lparr>remaining = content, at_eof = False\<rparr>)"

text \<open>
  The decoder of script data makes progress and stays within its depth bound: a call
  at depth bound \<open>n\<close> and position \<open>pos\<close> that returns has moved the position
  forward, and it can only fail by leaving the buffer when the bound exceeds the
  number of bytes from \<open>pos\<close> to the end.
\<close>

definition number_ok :: "bool \<Rightarrow> nat \<Rightarrow> byte list \<Rightarrow> nat \<Rightarrow> bool" where
  "number_ok be n d pos \<longleftrightarrow>
     (case parse_number be n d pos of
        Inl e \<Rightarrow> length d - pos < n \<longrightarrow> e = Out_of_bounds
      | Inr (v, p, i, w) \<Rightarrow> pos < p)"

definition object_ok :: "bool \<Rightarrow> nat \<Rightarrow> byte list \<Rightarrow> nat \<Rightarrow> bool" where
  "object_ok be n d pos \<longleftrightarrow>
     (case parse_script_object be n d pos of
        Inl e \<Rightarrow> length d - pos \<le> n \<longrightarrow> e = Out_of_bounds
      | Inr (p, i, w) \<Rightarrow> pos < p)"

definition ecma_ok :: "bool \<Rightarrow> nat \<Rightarrow> byte list \<Rightarrow> nat \<Rightarrow> nat \<Rightarrow> bool" where
  "ecma_ok be n d count pos \<longleftrightarrow>
     (case ecma_array be n d count pos of
        Inl e \<Rightarrow> length d - pos \<le> n \<longrightarrow> e = Out_of_bounds
      | Inr (p, i, w) \<Rightarrow> pos \<le> p)"

definition script_ok :: "bool \<Rightarrow> nat \<Rightarrow> byte list \<Rightarrow> nat \<Rightarrow> number \<Rightarrow> nat \<Rightarrow> bool" where
  "script_ok be n d count val pos \<longleftrightarrow>
     (case script_array be n d count val pos of
        Inl e \<Rightarrow> length d - pos < n \<longrightarrow> e = Out_of_bounds
      | Inr (v, p, i, w) \<Rightarrow> pos \<le> p)"

text \<open>The type bytes that have a case in the \<open>switch\<close> of \<open>parse_number\<close>.\<close>

definition handled_types :: "byte list" where
  "handled_types = [0, 1, 2, 3, 7, 8, 10, 11, 12]"

subsection \<open>Example inputs\<close>

text \<open>
  The examples run on a little-endian host without the metadata tag, at a frame
  interval of 100 ms, with fresh memory zeroed. \<open>example_file\<close> is an FLV file: the
  9-byte header, the first back pointer and the tags of the given packets. An audio
  payload starts with \<open>0xAF\<close>; a video payload with \<open>0x17\<close> is a key frame (high nibble
  1) of the AVC codec (low nibble 7), and it is a configuration record when its second
  byte is 0. A video payload with \<open>0x27\<close> is an inter frame (high nibble 2).
\<close>

definition example_config :: config where
  "example_config =
     \<lparr>big_endian = False, no_meta = True, frame_interval = 100, heap_junk = (\<lambda>n. 0)\<rparr>"

definition example_packet :: "byte \<Rightarrow> u32 \<Rightarrow> byte list \<Rightarrow> FLVpacket" where
  "example_packet ty ts bytes =
     \<lparr>type = ty, datasize = of_nat (length bytes), timestamp = ts, streamid = 0,
      data = bytes, backptr = of_nat (length bytes) + 11\<rparr>"

definition audio_packet :: "u32 \<Rightarrow> FLVpacket" where
  "audio_packet ts = example_packet 8 ts [0xAF, 0x01]"

definition key_frame :: "u32 \<Rightarrow> FLVpacket" where
  "key_frame ts = example_packet 9 ts [0x17, 0x01]"

definition config_record :: "u32 \<Rightarrow> byte \<Rightarrow> FLVpacket" where
  "config_record ts c = example_packet 9 ts [0x17, 0x00, c]"

definition inter_frame :: "u32 \<Rightarrow> FLVpacket" where
  "inter_frame ts = example_packet 9 ts [0x27, 0x01]"

definition example_file :: "FLVpacket list \<Rightarrow> byte list" where
  "example_file packets =
     c_string ''FLV'' @ [1, 5, 0, 0, 0, 9, 0, 0, 0, 0] @ concat (map (tag_bytes False) packets)"

definition seeking_start :: locals where
  "seeking_start = \<lparr>file_start_timestamp = - 999999, first_keyframe_timestamp = - 1\<rparr>"

text \<open>
  A script packet: the string \<open>onMetaData\<close> and an ECMA array of two entries, \<open>foo\<close>
  with a value of the unhandled type 13 and \<open>width\<close> with the double 640.
\<close>

definition example_script :: FLVpacket where
  "example_script =
     example_packet 18 0
       ([2] @ put_string False ''onMetaData'' @ [8] @ format_ui32 False 2
        @ put_string False ''foo'' @ [13]
        @ put_string False ''width'' @ [0, 0x40, 0x84, 0, 0, 0, 0, 0, 0]
        @ [0, 0, 9])"

section \<open>Properties of the binary primitive codec\<close>

lemma le_bytes_2:
  "le_bytes 2 w = [ucast w, ucast (drop_bit 8 w)]"
  by (simp add: le_bytes_def upt_rec)

lemma le_bytes_4:
  "le_bytes 4 w = [ucast w, ucast (drop_bit 8 w), ucast (drop_bit 16 w), ucast (drop_bit 24 w)]"
  by (simp add: le_bytes_def upt_rec)

lemma le_bytes_8:
  "le_bytes 8 w = [ucast w, ucast (drop_bit 8 w), ucast (drop_bit 16 w), ucast (drop_bit 24 w),
     ucast (drop_bit 32 w), ucast (drop_bit 40 w), ucast (drop_bit 48 w), ucast (drop_bit 56 w)]"
  by (simp add: le_bytes_def upt_rec)

lemma format_ui16_wire:
  "format_ui16 be x = [ucast (drop_bit 8 x), ucast x]"
  by (simp add: format_ui16_def store_def le_bytes_2)

lemma format_ui24_wire:
  "format_ui24 be x = [ucast (drop_bit 16 x), ucast (drop_bit 8 x), ucast x, ucast (drop_bit 24 x)]"
  by (simp add: format_ui24_def store_def le_bytes_4)

lemma format_ui32_wire:
  "format_ui32 be x = [ucast (drop_bit 24 x), ucast (drop_bit 16 x), ucast (drop_bit 8 x), ucast x]"
  by (simp add: format_ui32_def store_def le_bytes_4)

lemma format_double_wire:
  "format_double be x = [ucast (drop_bit 56 x), ucast (drop_bit 48 x), ucast (drop_bit 40 x),
     ucast (drop_bit 32 x), ucast (drop_bit 24 x), ucast (drop_bit 16 x), ucast (drop_bit 8 x),
     ucast x]"
  by (simp add: format_double_def store_def le_bytes_8)

lemma conv_ui16_wire:
  "conv_ui16 be (a # b # rest) = be_value [a, b]"
  by (simp add: conv_ui16_def load_def)

lemma conv_ui24_wire:
  "conv_ui24 be (a # b # c # rest) h = be_value [h, a, b, c]"
  by (simp add: conv_ui24_def load_def)

lemma conv_ui32_wire:
  "conv_ui32 be (a # b # c # d # rest) = be_value [a, b, c, d]"
  by (simp add: conv_ui32_def load_def)

lemma conv_double_wire:
  "conv_double be (a # b # c # d # e # f # g # h # rest) = be_value [a, b, c, d, e, f, g, h]"
  by (simp add: conv_double_def load_def)


lemma byte_split:
  "push_bit 8 (drop_bit 8 y) OR ucast (ucast y :: byte) = (y :: 'a::len word)"
  by (rule bit_word_eqI) (auto simp add: bit_simps)

lemma byte_split_at:
  "push_bit 8 (drop_bit (8 + k) y) OR ucast (ucast (drop_bit k y) :: byte)
     = drop_bit k (y :: 'a::len word)"
  using byte_split [of "drop_bit k y"] by (simp add: add.commute)

lemma top_byte_16: "ucast (ucast (drop_bit 8 x) :: byte) = drop_bit 8 (x :: u16)"
  by (rule bit_word_eqI) (auto simp add: bit_simps dest: bit_imp_le_length)

lemma top_byte_32: "ucast (ucast (drop_bit 24 x) :: byte) = drop_bit 24 (x :: u32)"
  by (rule bit_word_eqI) (auto simp add: bit_simps dest: bit_imp_le_length)

lemma top_byte_64: "ucast (ucast (drop_bit 56 x) :: byte) = drop_bit 56 (x :: double)"
  by (rule bit_word_eqI) (auto simp add: bit_simps dest: bit_imp_le_length)

lemma be_value_bytes_16:
  "be_value [ucast (drop_bit 8 x), ucast x] = (x :: u16)"
  using byte_split [of x] by (simp add: be_value_def top_byte_16)

lemma be_value_bytes_32:
  "be_value [ucast (drop_bit 24 x), ucast (drop_bit 16 x), ucast (drop_bit 8 x), ucast x]
     = (x :: u32)"
  using byte_split_at [of 16 x] byte_split_at [of 8 x] byte_split [of x]
  by (simp add: be_value_def top_byte_32)

lemma be_value_bytes_64:
  "be_value [ucast (drop_bit 56 x), ucast (drop_bit 48 x), ucast (drop_bit 40 x),
     ucast (drop_bit 32 x), ucast (drop_bit 24 x), ucast (drop_bit 16 x), ucast (drop_bit 8 x),
     ucast x] = (x :: double)"
  using byte_split_at [of 48 x] byte_split_at [of 40 x] byte_split_at [of 32 x]
    byte_split_at [of 24 x] byte_split_at [of 16 x] byte_split_at [of 8 x] byte_split [of x]
  by (simp add: be_value_def top_byte_64)

lemma high_byte_zero:
  assumes "x \<le> 0xFFFFFF"
  shows "(ucast (drop_bit 24 (x :: u32)) :: byte) = 0"
proof -
  from assms have "x < 2 ^ 24"
    by (simp add: word_le_nat_alt word_less_nat_alt)
  then have "x AND mask 24 = x"
    by (rule less_mask_eq)
  then have "drop_bit 24 x = drop_bit 24 (x AND mask 24)"
    by simp
  also have "\<dots> = 0"
    by (rule bit_word_eqI) (simp add: bit_simps)
  finally show ?thesis by simp
qed

lemma conv_format_ui16: "conv_ui16 be (format_ui16 be x) = x"
  by (simp add: format_ui16_wire conv_ui16_wire be_value_bytes_16)

lemma conv_format_ui32: "conv_ui32 be (format_ui32 be x) = x"
  by (simp add: format_ui32_wire conv_ui32_wire be_value_bytes_32)

lemma conv_format_double: "conv_double be (format_double be x) = x"
  by (simp add: format_double_wire conv_double_wire be_value_bytes_64)

lemma conv_format_ui24_ext:
  "conv_ui24 be (format_ui24 be x) (format_ui24 be x ! 3) = x"
  by (simp add: format_ui24_wire conv_ui24_wire be_value_bytes_32)

lemma conv_format_ui24_plain:
  "x \<le> 0xFFFFFF \<Longrightarrow> conv_ui24 be (format_ui24 be x) 0 = x"
  using be_value_bytes_32 [of x]
  by (simp add: format_ui24_wire conv_ui24_wire high_byte_zero)

section \<open>Properties of the script-data decoder\<close>

lemma peek_Inr: "peek d pos = Inr b \<Longrightarrow> pos < length d"
  by (simp add: peek_def split: if_splits)

lemma peek_n_Inr: "peek_n d pos n = Inr bs \<Longrightarrow> pos + n \<le> length d"
  by (simp add: peek_n_def split: if_splits)

lemma parse_script_string_pos:
  "parse_script_string d pos len keep = Inr (pos', name) \<Longrightarrow> pos' = pos + len"
  by (auto simp add: parse_script_string_def split: if_splits sum.splits)

lemma named_string_pos:
  "named_string be d pos = Inr (pos', name) \<Longrightarrow> pos + 2 \<le> pos' \<and> pos + 2 \<le> length d"
  by (auto simp add: named_string_def dest!: peek_n_Inr parse_script_string_pos split: sum.splits)

lemma parse_scalar_pos:
  "parse_scalar be d pos t = Inr (v, pos', items, ws) \<Longrightarrow> pos \<le> pos'"
  by (auto simp add: parse_scalar_def dest!: parse_script_string_pos split: if_splits sum.splits)

lemma parse_scalar_fuel: "parse_scalar be d pos t \<noteq> Inl Out_of_fuel"
  by (auto simp add: parse_scalar_def peek_def peek_n_def parse_script_string_def split: if_splits sum.splits)

lemma closing_bytes_pos: "closing_bytes d pos = Inr pos' \<Longrightarrow> pos \<le> pos'"
  by (auto simp add: closing_bytes_def split: sum.splits if_splits)

lemma no_fuel_simps:
  "peek d pos \<noteq> Inl Out_of_fuel" "peek_n d pos n \<noteq> Inl Out_of_fuel"
  "named_string be d pos \<noteq> Inl Out_of_fuel" "closing_bytes d pos \<noteq> Inl Out_of_fuel"
  by (auto simp add: peek_def peek_n_def named_string_def parse_script_string_def closing_bytes_def
      split: sum.splits)


lemma peek_Inl: "peek d pos = Inl e \<Longrightarrow> e = Out_of_bounds"
  by (simp add: peek_def split: if_splits)

lemma peek_n_Inl: "peek_n d pos n = Inl e \<Longrightarrow> e = Out_of_bounds"
  by (simp add: peek_n_def split: if_splits)

lemma named_string_Inl: "named_string be d pos = Inl e \<Longrightarrow> e = Out_of_bounds"
  by (auto simp add: named_string_def parse_script_string_def dest: peek_n_Inl
      split: sum.splits if_splits)

lemma closing_bytes_Inl: "closing_bytes d pos = Inl e \<Longrightarrow> e = Out_of_bounds"
  by (auto simp add: closing_bytes_def dest: peek_n_Inl split: sum.splits)

lemma parse_scalar_Inl: "parse_scalar be d pos t = Inl e \<Longrightarrow> e = Out_of_bounds"
  using parse_scalar_fuel [of be d pos t] by (cases e) auto

lemma parse_ok:
  "number_ok be n d pos"
  "object_ok be n d pos"
  "ecma_ok be n d count pos"
  "script_ok be n d count val pos"
proof (induction be n d pos and be n d pos and be n d count pos and be n d count val pos
    rule: parse_number_parse_script_object_ecma_array_script_array.induct)
  case (1 be d pos)
  show ?case by (simp add: number_ok_def)
next
  case (2 be n d pos)
  show ?case
  proof (cases "peek d pos")
    case (Inl e)
    then show ?thesis
      by (simp add: number_ok_def peek_Inl)
  next
    case (Inr t)
    then have lt: "pos < length d" by (rule peek_Inr)
    consider (object) "t = 3" | (ecma) "t \<noteq> 3" "t = 8" | (script) "t \<noteq> 3" "t \<noteq> 8" "t = 10"
      | (scalar) "t \<noteq> 3" "t \<noteq> 8" "t \<noteq> 10"
      by blast
    then show ?thesis
    proof cases
      case object
      from "2.IH"(1) [OF Inr object] lt Inr object show ?thesis
        by (auto simp add: number_ok_def object_ok_def split: sum.splits)
    next
      case ecma
      show ?thesis
      proof (cases "peek_n d (pos + 1) 4")
        case (Inl e)
        with Inr ecma show ?thesis
          by (simp add: number_ok_def peek_n_Inl)
      next
        case len: (Inr bs)
        then have "pos + 1 + 4 \<le> length d" by (rule peek_n_Inr)
        with "2.IH"(2) [OF Inr ecma len] Inr ecma len show ?thesis
          by (auto simp add: number_ok_def ecma_ok_def split: sum.splits)
      qed
    next
      case script
      show ?thesis
      proof (cases "peek_n d (pos + 1) 4")
        case (Inl e)
        with Inr script show ?thesis
          by (simp add: number_ok_def peek_n_Inl)
      next
        case len: (Inr bs)
        then have "pos + 1 + 4 \<le> length d" by (rule peek_n_Inr)
        with "2.IH"(3) [OF Inr script len] Inr script len show ?thesis
          by (auto simp add: number_ok_def script_ok_def split: sum.splits)
      qed
    next
      case scalar
      with Inr show ?thesis
        by (auto simp add: number_ok_def split: sum.splits
            dest: parse_scalar_Inl parse_scalar_pos)
    qed
  qed
next
  case (3 be n d pos)
  show ?case
  proof (cases "peek d pos")
    case (Inl e)
    then show ?thesis
      by (simp add: object_ok_def peek_Inl)
  next
    case marker: (Inr b)
    let ?p0 = "if b \<noteq> 2 then pos else pos + 1"
    show ?thesis
    proof (cases "named_string be d ?p0")
      case (Inl e)
      with marker show ?thesis
        by (simp add: object_ok_def named_string_Inl)
    next
      case (Inr r)
      obtain pos1 name where r: "r = (pos1, name)" by (cases r) auto
      from Inr r have pos1: "?p0 + 2 \<le> pos1" "?p0 + 2 \<le> length d"
        using named_string_pos [of be d ?p0 pos1 name] by simp_all
      from "3.IH" [OF marker Inr r [symmetric]] have ih: "number_ok be n d pos1" .
      show ?thesis
      proof (cases "parse_number be n d pos1")
        case (Inl e)
        with ih pos1 marker Inr r show ?thesis
          by (auto simp add: object_ok_def number_ok_def split: if_splits)
      next
        case num: (Inr q)
        obtain val pos2 items ws where q: "q = (val, pos2, items, ws)" by (cases q) auto
        with ih num have "pos1 < pos2" by (simp add: number_ok_def)
        with pos1 marker Inr r num q show ?thesis
          by (auto simp add: object_ok_def split: sum.splits if_splits
              dest!: closing_bytes_Inl closing_bytes_pos)
      qed
    qed
  qed
next
  case (4 be n d pos)
  show ?case by (simp add: ecma_ok_def)
next
  case (5 be n d count pos)
  show ?case
  proof (cases "named_string be d pos")
    case (Inl e)
    then show ?thesis
      by (simp add: ecma_ok_def named_string_Inl)
  next
    case (Inr r)
    obtain pos1 name where r: "r = (pos1, name)" by (cases r) auto
    from Inr r have pos1: "pos + 2 \<le> pos1" "pos + 2 \<le> length d"
      using named_string_pos [of be d pos pos1 name] by simp_all
    from "5.IH"(1) [OF Inr r [symmetric]] have ih: "number_ok be n d pos1" .
    show ?thesis
    proof (cases "parse_number be n d pos1")
      case (Inl e)
      with ih pos1 Inr r show ?thesis
        by (auto simp add: ecma_ok_def number_ok_def)
    next
      case num: (Inr q)
      obtain val pos2 items ws where q: "q = (val, pos2, items, ws)" by (cases q) auto
      with ih num have lt: "pos1 < pos2" by (simp add: number_ok_def)
      from "5.IH"(2) [OF Inr r [symmetric] num q [symmetric] refl refl]
      have ih2: "ecma_ok be n d count pos2" .
      from pos1 lt have "length d - pos2 \<le> length d - pos" "pos \<le> pos2"
        by simp_all
      with ih2 Inr r num q show ?thesis
        by (auto simp add: ecma_ok_def split: sum.splits)
    qed
  qed
next
  case (6 be n d "value" pos)
  show ?case by (simp add: script_ok_def)
next
  case (7 be n d count "value" pos)
  note ih = "7.IH"(1)
  show ?case
  proof (cases "parse_number be n d pos")
    case (Inl e)
    with ih show ?thesis
      by (auto simp add: script_ok_def number_ok_def)
  next
    case num: (Inr q)
    obtain val pos2 items ws where q: "q = (val, pos2, items, ws)" by (cases q) auto
    with ih num have lt: "pos < pos2" by (simp add: number_ok_def)
    from "7.IH"(2) [OF num q [symmetric] refl refl]
    have ih2: "script_ok be n d count val pos2" .
    from lt have "length d - pos2 \<le> length d - pos" "pos \<le> pos2"
      by simp_all
    with ih2 num q show ?thesis
      by (auto simp add: script_ok_def split: sum.splits)
  qed
qed


lemma parse_number_Inr_bound:
  "parse_number be n d pos = Inr r \<Longrightarrow> pos < length d"
  by (cases n) (auto dest: peek_Inr split: sum.splits)

declare parse_number.simps [simp del] parse_script_object.simps [simp del]
  ecma_array.simps [simp del] script_array.simps [simp del]

lemma parse_number_fault:
  "length d - pos < n \<Longrightarrow> parse_number be n d pos = Inl e \<Longrightarrow> e = Out_of_bounds"
  using parse_ok(1) [of be n d pos] by (simp add: number_ok_def)

lemma parse_number_progress:
  "parse_number be n d pos = Inr (v, p, i, w) \<Longrightarrow> pos < p"
  using parse_ok(1) [of be n d pos] by (simp add: number_ok_def)

lemma extract_loop_fault:
  "length d - pos < k \<Longrightarrow> extract_loop be k d dsz pos found = Inl e \<Longrightarrow> e = Out_of_bounds"
proof (induction k arbitrary: pos found)
  case 0
  then show ?case by simp
next
  case (Suc k)
  show ?case
  proof (cases "int pos \<le> uint (dsz - 6)")
    case False
    with Suc.prems(2) show ?thesis by simp
  next
    case True
    show ?thesis
    proof (cases "named_string be d pos")
      case (Inl e')
      with True Suc.prems(2) show ?thesis
        by (auto dest: named_string_Inl)
    next
      case (Inr r)
      obtain pos1 name where r: "r = (pos1, name)" by (cases r) auto
      from Inr r have pos1: "pos + 2 \<le> pos1"
        using named_string_pos [of be d pos pos1 name] by simp
      show ?thesis
      proof (cases "parse_number be (Suc (length d)) d pos1")
        case (Inl e')
        then have "e' = Out_of_bounds"
          by (rule parse_number_fault [rotated]) simp
        with True Inr r Inl Suc.prems(2) show ?thesis
          by simp
      next
        case num: (Inr q)
        obtain val pos2 items ws where q: "q = (val, pos2, items, ws)" by (cases q) auto
        from num have "pos1 < length d" by (rule parse_number_Inr_bound)
        moreover from num q have "pos1 < pos2"
          by (simp add: parse_number_progress)
        ultimately have "length d - pos2 < k"
          using pos1 Suc.prems(1) by simp
        moreover from True Inr r num q Suc.prems(2)
        have "extract_loop be k d dsz pos2 (found \<or> name = c_string ''onMetaData'') = Inl e"
          by (auto split: sum.splits)
        ultimately show ?thesis
          by (rule Suc.IH)
      qed
    qed
  qed
qed

lemma extract_metadata_fault:
  assumes "extract_metadata be packet = Inl e"
  shows "e = Out_of_bounds"
proof (cases "peek (data packet) 0")
  case (Inl e')
  with assms show ?thesis
    by (auto simp add: extract_metadata_def split: if_splits dest: peek_Inl)
next
  case (Inr marker)
  with assms have "extract_loop be (Suc (length (data packet))) (data packet) (datasize packet)
      (if marker \<noteq> 2 then 0 else 1) False = Inl e"
    by (simp add: extract_metadata_def split: if_splits)
  then show ?thesis
    by (rule extract_loop_fault [rotated]) simp
qed

lemma parse_number_unhandled:
  assumes "pos < length d" and "d ! pos \<notin> set handled_types"
  shows "parse_number be (Suc n) d pos = Inr (No_number, pos + 1, [], [d ! pos])"
  using assms
  by (simp add: parse_number.simps peek_def parse_scalar_def handled_types_def)

lemma extract_loop_unhandled:
  assumes "int pos \<le> uint (dsz - 6)" and "named_string be d pos = Inr (pos1, name)"
    and "pos1 < length d" and "d ! pos1 \<notin> set handled_types"
  shows "extract_loop be (Suc k) d dsz pos found =
     (case extract_loop be k d dsz (pos1 + 1) (found \<or> name = c_string ''onMetaData'') of
        Inl e \<Rightarrow> Inl e
      | Inr (found', items, warnings) \<Rightarrow>
          Inr (found', (name, No_number) # items, d ! pos1 # warnings))"
  using assms parse_number_unhandled [of pos1 d be "length d"]
  by (simp split: sum.splits)

lemma parse_script_object_unclosed:
  assumes "peek d pos = Inr marker"
    and "named_string be d (if marker \<noteq> 2 then pos else pos + 1) = Inr (pos1, name)"
    and "parse_number be n d pos1 = Inr (val, pos2, items, warnings)"
    and "pos2 + 3 \<le> length d" and "take 3 (drop pos2 d) \<noteq> [0, 0, 9]"
  shows "parse_script_object be n d pos = Inr (pos2, items @ [(name, val)], warnings)"
  using assms
  by (simp add: parse_script_object.simps closing_bytes_def peek_n_def)

section \<open>Properties of the join engine\<close>

declare append_loop.simps [simp del]

lemma sint_ucast_32_64: "sint (ucast (x :: u32) :: long) = uint x"
proof -
  have "- (2 ^ 63) \<le> (0::int)" by simp
  then have "- (2 ^ 63) \<le> uint x"
    using uint_ge_0 [of x] by (rule order_trans)
  moreover have "uint x < 2 ^ 63"
    using uint_lt2p [of x] by simp
  ultimately show ?thesis
    by (simp add: signed_ucast_eq signed_take_bit_int_eq_self)
qed






lemma audio_inv_cong:
  "outfile s' = outfile s \<Longrightarrow> last_audio_timestamp s' = last_audio_timestamp s
     \<Longrightarrow> audio_inv s' = audio_inv s"
  by (simp add: audio_inv_def)








lemma map_sum_fst_Inr:
  "map_sum id fst r = Inr s' \<longleftrightarrow> (\<exists>l'. r = Inr (s', l'))"
  by (cases r) auto





lemma ucast_long_add: "(ucast ((x :: long) + y) :: u32) = ucast x + ucast y"
proof -
  have "take_bit 32 ((uint x + uint y) mod 2 ^ 64) = take_bit 32 (uint x + uint y)"
    by (simp add: take_bit_eq_mod mod_mod_cancel)
  then have "(word_of_int ((uint x + uint y) mod 2 ^ 64) :: u32) = word_of_int (uint x + uint y)"
    by (simp only: word_of_int_eq_iff len_bit0 len_num1 mult_numeral_left_semiring_numeral) simp
  then show ?thesis
    by (simp only: ucast_eq uint_word_ariths wi_hom_add len_bit0 len_num1) simp
qed

lemma ucast_long_u32: "(ucast (ucast (t :: u32) :: long) :: u32) = t"
  by (rule bit_word_eqI) (simp add: bit_simps)

lemma new_timestamp: "(ucast ((ucast (t :: u32) :: long) + start) :: u32) = t + ucast start"
  by (simp add: ucast_long_add ucast_long_u32)


lemma write_packet_eq:
  "write_packet packet start s =
     (if type packet = 8
         \<and> (ucast (timestamp packet + ucast start) :: long) \<le>s last_audio_timestamp s then s
      else s\<lparr>outfile := outfile s @ [retime start packet],
             last_video_timestamp :=
               (if type packet = 9 then timestamp packet + ucast start
                else last_video_timestamp s),
             last_audio_timestamp :=
               (if type packet = 8 then ucast (timestamp packet + ucast start)
                else last_audio_timestamp s),
             last_packet_size := datasize packet\<rparr>)"
  by (simp add: write_packet_def Let_def new_timestamp retime_def)

lemma write_packet_unchanged [simp]:
  "seq_header_pkt (write_packet packet start s) = seq_header_pkt s"
  "pktarray (write_packet packet start s) = pktarray s"
  "first_time (write_packet packet start s) = first_time s"
  "metadata_extracted (write_packet packet start s) = metadata_extracted s"
  "meta_items (write_packet packet start s) = meta_items s"
  "buff (write_packet packet start s) = buff s"
  "packet_data (write_packet packet start s) = packet_data s"
  by (simp_all add: write_packet_eq)

lemma write_packet_video:
  "type packet = 9 \<Longrightarrow>
   write_packet packet start s =
     s\<lparr>outfile := outfile s @ [retime start packet],
       last_video_timestamp := timestamp packet + ucast start,
       last_packet_size := datasize packet\<rparr>"
  by (simp add: write_packet_eq)

lemma flush_loop_append:
  "flush_loop (ps @ qs) start s = flush_loop qs start (flush_loop ps start s)"
  by (induction ps arbitrary: s) (simp_all add: Let_def)

lemma flush_loop_audio:
  "\<forall>q\<in>set ps. type q = 8 \<Longrightarrow>
   flush_loop ps start s = foldl (\<lambda>s q. write_packet q start s) s ps"
  by (induction ps arbitrary: s) (auto simp add: Let_def split: option.splits)

lemma foldl_write_packet_unchanged [simp]:
  "seq_header_pkt (foldl (\<lambda>s q. write_packet q start s) s ps) = seq_header_pkt s"
  "pktarray (foldl (\<lambda>s q. write_packet q start s) s ps) = pktarray s"
  "first_time (foldl (\<lambda>s q. write_packet q start s) s ps) = first_time s"
  by (induction ps arbitrary: s) simp_all

lemma payload_payload [simp]: "payload (packet\<lparr>data := payload packet\<rparr>) = payload packet"
  by (simp add: payload_def)

lemma retime_copy [simp]: "retime start (packet\<lparr>data := payload packet\<rparr>) = retime start packet"
  by (simp add: retime_def)

lemma route_key_frame:
  assumes "file_start_timestamp l = - 999999"
    and "type k = 9" and "is_key_frame k = Inr True"
    and "mark_in \<le> timestamp k" and "timestamp k < mark_out"
  shows "route_packet cfg mark_in mark_out lvt k (s, l) =
     (let l1 = (if first_keyframe_timestamp l = - 1
                then l\<lparr>first_keyframe_timestamp := ucast (timestamp k)\<rparr> else l);
          start = (if first_time s then - first_keyframe_timestamp l1
                   else ucast (lvt + frame_interval cfg - timestamp k))
      in Inr (buffer_packet k start True (s\<lparr>first_time := False\<rparr>),
              l1\<lparr>file_start_timestamp := start\<rparr>))"
  using assms by (auto simp add: route_packet_def Let_def not_less)


lemma write_packet_copy [simp]:
  "write_packet (packet\<lparr>data := payload packet\<rparr>) start s = write_packet packet start s"
  by (simp add: write_packet_eq)

lemma write_packet_first_time:
  "write_packet packet start (s\<lparr>first_time := b\<rparr>) = (write_packet packet start s)\<lparr>first_time := b\<rparr>"
  by (simp add: write_packet_eq)

lemma foldl_write_packet_first_time:
  "foldl (\<lambda>s q. write_packet q start s) (s\<lparr>first_time := b\<rparr>) ps
     = (foldl (\<lambda>s q. write_packet q start s) s ps)\<lparr>first_time := b\<rparr>"
  by (induction ps arbitrary: s) (simp_all add: write_packet_first_time)

lemma buffer_packet_flush:
  assumes "\<forall>q\<in>set (pktarray s). type q = 8" and "type k = 9"
  shows "buffer_packet k start True s =
     (let sa = foldl (\<lambda>s q. write_packet q start s) s (pktarray s);
          sh = (case seq_header_pkt s of
                  None \<Rightarrow> sa
                | Some header \<Rightarrow>
                    (write_packet (header\<lparr>timestamp := timestamp k\<rparr>) start sa)
                      \<lparr>seq_header_pkt := None\<rparr>)
      in (write_packet k start sh)\<lparr>pktarray := []\<rparr>)"
  using assms
  by (simp add: buffer_packet_def flush_loop_append flush_loop_audio Let_def
      split: option.splits)

lemma buffer_packet_keep:
  "buffer_packet packet start False s = s\<lparr>pktarray := pktarray s @ [packet\<lparr>data := payload packet\<rparr>]\<rparr>"
  by (simp add: buffer_packet_def)

lemma handle_not_captured:
  "type packet \<noteq> 18 \<Longrightarrow> is_sequence_header s packet = Inr False \<Longrightarrow>
   handle_packet cfg mark_in mark_out lvt packet (s, l)
     = route_packet cfg mark_in mark_out lvt packet (s, l)"
  by (simp add: handle_packet_def)

lemma is_sequence_header_cached:
  "seq_header_pkt s = Some header \<Longrightarrow> is_sequence_header s packet = Inr False"
  by (simp add: is_sequence_header_def)






lemma flush_loop_seq_header:
  "seq_header_pkt (flush_loop ps start s) = seq_header_pkt s
   \<or> seq_header_pkt (flush_loop ps start s) = None"
proof (induction ps arbitrary: s)
  case Nil
  show ?case by simp
next
  case (Cons p ps)
  let ?s1 = "case seq_header_pkt s of
               None \<Rightarrow> s
             | Some header \<Rightarrow>
                 if type p = 9 then
                   (write_packet (header\<lparr>timestamp := timestamp p\<rparr>) start s)
                     \<lparr>seq_header_pkt := None\<rparr>
                 else s"
  have "seq_header_pkt ?s1 = seq_header_pkt s \<or> seq_header_pkt ?s1 = None"
    by (simp split: option.splits)
  with Cons.IH [of "write_packet p start ?s1"] show ?case
    by (auto simp add: Let_def)
qed

lemma buffer_packet_seq_header:
  "seq_header_pkt (buffer_packet p start flush s) = seq_header_pkt s
   \<or> seq_header_pkt (buffer_packet p start flush s) = None"
  using flush_loop_seq_header [of "pktarray s @ [p\<lparr>data := payload p\<rparr>]" start s]
  by (simp add: buffer_packet_def Let_def)

lemma route_packet_cases:
  assumes "route_packet cfg mark_in mark_out lvt p (s, l) = Inr (s', l')"
  obtains (dropped) "s' = s"
  | (flushed) start where "s' = buffer_packet p start True (s\<lparr>first_time := False\<rparr>)"
      and "file_start_timestamp l = - 999999"
  | (buffered) "s' = buffer_packet p (- 1) False s" and "file_start_timestamp l = - 999999"
  | (written) "s' = write_packet p (file_start_timestamp l) s"
      and "file_start_timestamp l \<noteq> - 999999"
  using assms
  by (auto simp add: route_packet_def Let_def split: if_splits sum.splits)

lemma route_packet_seq_header:
  assumes "route_packet cfg mark_in mark_out lvt p (s, l) = Inr (s', l')"
  shows "seq_header_pkt s' = seq_header_pkt s \<or> seq_header_pkt s' = None"
  using assms
proof (cases rule: route_packet_cases)
  case dropped
  then show ?thesis by simp
next
  case (flushed start)
  then show ?thesis
    using buffer_packet_seq_header [of p start True "s\<lparr>first_time := False\<rparr>"] by simp
next
  case buffered
  then show ?thesis
    using buffer_packet_seq_header [of p "- 1" False s] by simp
next
  case written
  then show ?thesis by simp
qed

lemma capture_sequence_header:
  assumes "type p = 9" and "seq_header_pkt s = None"
    and "data p = b0 # b1 # rest" and "b0 AND 0x0f = 7" and "b1 = 0"
  shows "handle_packet cfg mark_in mark_out lvt p (s, l)
           = Inr (s\<lparr>seq_header_pkt := Some (p\<lparr>data := payload p\<rparr>)\<rparr>, l)"
  using assms by (simp add: handle_packet_def is_sequence_header_def peek_def)

lemma seeking_audio_buffered:
  assumes "file_start_timestamp l = - 999999" and "type a = 8"
    and "mark_in \<le> timestamp a" and "timestamp a < mark_out"
  shows "\<exists>l'. handle_packet cfg mark_in mark_out lvt a (s, l)
            = Inr (s\<lparr>pktarray := pktarray s @ [a\<lparr>data := payload a\<rparr>]\<rparr>, l')
          \<and> file_start_timestamp l' = - 999999"
  using assms
  by (auto simp add: handle_packet_def is_sequence_header_def route_packet_def is_key_frame_def
      Let_def buffer_packet_keep not_less)

lemma streaming_keeps_buffer:
  assumes "file_start_timestamp l \<noteq> - 999999"
    and "handle_packet cfg mark_in mark_out lvt p (s, l) = Inr (s', l')"
  shows "pktarray s' = pktarray s \<and> file_start_timestamp l' = file_start_timestamp l"
  using assms
  by (auto simp add: handle_packet_def route_packet_def Let_def
      split: if_splits sum.splits bool.splits)




lemma uint_ucast_long: "uint (ucast (x :: long) :: u32) = sint x mod 2 ^ 32"
proof -
  have "uint (ucast x :: u32) = take_bit 32 (uint x)"
    by (simp add: unsigned_ucast_eq)
  also have "\<dots> = take_bit 32 (sint x)"
    by (simp add: sint_uint take_bit_signed_take_bit)
  finally show ?thesis
    by (simp add: take_bit_eq_mod)
qed

lemma uint_new_timestamp:
  "uint (t + ucast (start :: long) :: u32) = (uint t + sint start) mod 2 ^ 32"
proof -
  have "uint (t + ucast start :: u32) = (uint t + sint start mod 2 ^ 32) mod 2 ^ 32"
    by (simp add: uint_word_ariths uint_ucast_long)
  then show ?thesis
    by (simp add: mod_add_right_eq)
qed

lemma drop_rule:
  "(ucast (t + ucast (start :: long) :: u32) :: long) \<le>s last_audio
     \<longleftrightarrow> (uint t + sint start) mod 2 ^ 32 \<le> sint last_audio"
  by (simp only: word_sle_eq sint_ucast_32_64 uint_new_timestamp)

lemma write_packet_dropped:
  "write_packet packet start s = s \<longleftrightarrow>
     type packet = 8
     \<and> (uint (timestamp packet) + sint start) mod 2 ^ 32 \<le> sint (last_audio_timestamp s)"
proof -
  have "s\<lparr>outfile := outfile s @ [x], last_video_timestamp := v, last_audio_timestamp := a,
          last_packet_size := z\<rparr> \<noteq> s" for x v a z
  proof
    assume "s\<lparr>outfile := outfile s @ [x], last_video_timestamp := v, last_audio_timestamp := a,
          last_packet_size := z\<rparr> = s"
    then have "outfile (s\<lparr>outfile := outfile s @ [x], last_video_timestamp := v,
          last_audio_timestamp := a, last_packet_size := z\<rparr>) = outfile s"
      by simp
    then show False by simp
  qed
  then show ?thesis
    by (simp add: write_packet_eq drop_rule)
qed

lemma write_packet_written:
  assumes "write_packet packet start s \<noteq> s"
  shows "outfile (write_packet packet start s) = outfile s @ [retime start packet]"
    and "uint (timestamp (retime start packet)) = (uint (timestamp packet) + sint start) mod 2 ^ 32"
    and "type packet = 8 \<Longrightarrow>
         sint (last_audio_timestamp (write_packet packet start s))
           = (uint (timestamp packet) + sint start) mod 2 ^ 32"
  using assms
  by (auto simp add: write_packet_eq retime_def uint_new_timestamp sint_ucast_32_64
      split: if_splits)







lemma seeking_step:
  assumes run: "handle_packet cfg mark_in mark_out lvt p (s, l) = Inr (s', l')"
    and seeking: "file_start_timestamp l = - 999999"
    and other: "\<not> (type p = 9 \<and> is_key_frame p = Inr True
                  \<and> mark_in \<le> timestamp p \<and> timestamp p < mark_out
                  \<and> is_sequence_header s p = Inr False)"
  shows "outfile s' = outfile s" and "file_start_timestamp l' = - 999999"
    and "first_time s' = first_time s"
    and "pktarray s' =
           (if type p = 8 \<and> mark_in \<le> timestamp p \<and> timestamp p < mark_out
            then pktarray s @ [p\<lparr>data := payload p\<rparr>] else pktarray s)"
  using assms
  by (auto simp add: handle_packet_def route_packet_def Let_def is_key_frame_def
      buffer_packet_keep is_sequence_header_def
      split: if_splits sum.splits bool.splits)



lemma foldl_write_packet_audio:
  "\<forall>q\<in>set ps. type q = 8 \<Longrightarrow>
   outfile (foldl (\<lambda>s q. write_packet q start s) s ps)
     = outfile s @ map (retime start) (non_overlapping start (sint (last_audio_timestamp s)) ps)"
proof (induction ps arbitrary: s)
  case Nil
  show ?case by simp
next
  case (Cons q qs)
  then have audio: "type q = 8" and rest: "\<forall>q\<in>set qs. type q = 8"
    by simp_all
  show ?case
  proof (cases "write_packet q start s = s")
    case True
    with audio have "(uint (timestamp q) + sint start) mod 2 ^ 32 \<le> sint (last_audio_timestamp s)"
      by (simp add: write_packet_dropped)
    with True Cons.IH [OF rest, of s] show ?thesis
      by (simp add: Let_def)
  next
    case False
    with audio have "\<not> (uint (timestamp q) + sint start) mod 2 ^ 32 \<le> sint (last_audio_timestamp s)"
      by (simp add: write_packet_dropped)
    moreover note write_packet_written(1) [OF False]
      write_packet_written(3) [OF False audio]
    ultimately show ?thesis
      using Cons.IH [OF rest, of "write_packet q start s"]
      by (simp add: Let_def)
  qed
qed




lemma key_frame_flush:
  assumes seeking: "file_start_timestamp l = - 999999"
    and video: "type k = 9" and key: "is_key_frame k = Inr True"
    and marks: "mark_in \<le> timestamp k" "timestamp k < mark_out"
    and routed: "is_sequence_header s k = Inr False"
    and pending: "\<forall>q\<in>set (pktarray s). type q = 8"
  obtains (flushed) s' l' hs
    where "handle_packet cfg mark_in mark_out lvt k (s, l) = Inr (s', l')"
    and "file_start_timestamp l' =
               (if first_time s
                then - (if first_keyframe_timestamp l = - 1 then ucast (timestamp k)
                        else first_keyframe_timestamp l)
                else ucast (lvt + frame_interval cfg - timestamp k))"
    and "outfile s' = outfile s
               @ map (retime (file_start_timestamp l'))
                   (non_overlapping (file_start_timestamp l') (sint (last_audio_timestamp s))
                      (pktarray s))
               @ hs @ [retime (file_start_timestamp l') k]"
    and "seq_header_pkt s = None \<Longrightarrow> hs = []"
    and "\<And>h. seq_header_pkt s = Some h \<Longrightarrow>
                  hs = [] \<and> type h = 8
                  \<or> hs = [retime (file_start_timestamp l') (h\<lparr>timestamp := timestamp k\<rparr>)]"
    and "pktarray s' = []" and "seq_header_pkt s' = None" and "\<not> first_time s'"
proof -
  define l1 where "l1 = (if first_keyframe_timestamp l = - 1
             then l\<lparr>first_keyframe_timestamp := ucast (timestamp k)\<rparr> else l)"
  define start where "start = (if first_time s then - first_keyframe_timestamp l1
                else ucast (lvt + frame_interval cfg - timestamp k))"
  define sa where "sa = foldl (\<lambda>s q. write_packet q start s) (s\<lparr>first_time := False\<rparr>) (pktarray s)"
  define sh where "sh = (case seq_header_pkt s of
               None \<Rightarrow> sa
             | Some header \<Rightarrow>
                 (write_packet (header\<lparr>timestamp := timestamp k\<rparr>) start sa)
                   \<lparr>seq_header_pkt := None\<rparr>)"
  define s' where "s' = (write_packet k start sh)\<lparr>pktarray := []\<rparr>"
  define l' where "l' = l1\<lparr>file_start_timestamp := start\<rparr>"
  from video have "type k \<noteq> 18" by simp
  then have handled: "handle_packet cfg mark_in mark_out lvt k (s, l)
               = route_packet cfg mark_in mark_out lvt k (s, l)"
    using routed by (rule handle_not_captured)
  have route: "route_packet cfg mark_in mark_out lvt k (s, l)
               = Inr (buffer_packet k start True (s\<lparr>first_time := False\<rparr>), l')"
    by (simp add: route_key_frame [OF seeking video key marks] Let_def start_def l1_def l'_def)
  have "\<forall>q\<in>set (pktarray (s\<lparr>first_time := False\<rparr>)). type q = 8"
    using pending by simp
  then have "buffer_packet k start True (s\<lparr>first_time := False\<rparr>) = s'"
    using video unfolding s'_def sh_def sa_def
    by (simp add: buffer_packet_flush [of "s\<lparr>first_time := False\<rparr>" k start] Let_def)
  with handled route have run: "handle_packet cfg mark_in mark_out lvt k (s, l) = Inr (s', l')"
    by simp
  have offset: "file_start_timestamp l' = start"
    by (simp add: l'_def)
  have formula: "start =
               (if first_time s
                then - (if first_keyframe_timestamp l = - 1 then ucast (timestamp k)
                        else first_keyframe_timestamp l)
                else ucast (lvt + frame_interval cfg - timestamp k))"
    by (simp add: start_def l1_def)
  from pending have audio: "outfile sa = outfile s
      @ map (retime start) (non_overlapping start (sint (last_audio_timestamp s)) (pktarray s))"
    unfolding sa_def
    using foldl_write_packet_audio [of "pktarray s" start "s\<lparr>first_time := False\<rparr>"] by simp
  obtain hs where hs: "outfile sh = outfile sa @ hs"
    and none: "seq_header_pkt s = None \<longrightarrow> hs = []"
    and some: "\<forall>h. seq_header_pkt s = Some h \<longrightarrow>
                  hs = [] \<and> type h = 8 \<or> hs = [retime start (h\<lparr>timestamp := timestamp k\<rparr>)]"
  proof (cases "seq_header_pkt s")
    case None
    then have "outfile sh = outfile sa @ []"
      by (simp add: sh_def)
    with None show ?thesis
      using that [of "[]"] by simp
  next
    case (Some header)
    then have eq: "outfile sh = outfile (write_packet (header\<lparr>timestamp := timestamp k\<rparr>) start sa)"
      by (simp add: sh_def)
    show ?thesis
    proof (cases "write_packet (header\<lparr>timestamp := timestamp k\<rparr>) start sa = sa")
      case True
      then have "type header = 8"
        by (simp add: write_packet_dropped)
      with True eq Some show ?thesis
        using that [of "[]"] by simp
    next
      case False
      then have "outfile (write_packet (header\<lparr>timestamp := timestamp k\<rparr>) start sa)
          = outfile sa @ [retime start (header\<lparr>timestamp := timestamp k\<rparr>)]"
        by (rule write_packet_written)
      with eq Some show ?thesis
        using that [of "[retime start (header\<lparr>timestamp := timestamp k\<rparr>)]"] by simp
    qed
  qed
  from video have "outfile (write_packet k start sh) = outfile sh @ [retime start k]"
    by (simp add: write_packet_video)
  with audio hs have out: "outfile s' = outfile s
      @ map (retime start) (non_overlapping start (sint (last_audio_timestamp s)) (pktarray s))
      @ hs @ [retime start k]"
    by (simp add: s'_def)
  have "seq_header_pkt sa = seq_header_pkt s"
    by (simp add: sa_def)
  then have "seq_header_pkt sh = None"
    by (simp add: sh_def split: option.splits)
  then have cleared: "pktarray s' = []" "seq_header_pkt s' = None"
    by (simp_all add: s'_def)
  have "first_time sa = False"
    by (simp add: sa_def)
  then have "first_time sh = False"
    by (simp add: sh_def split: option.splits)
  then have later: "\<not> first_time s'"
    by (simp add: s'_def)
  show ?thesis
  proof (rule flushed [of s' l' hs])
    show "handle_packet cfg mark_in mark_out lvt k (s, l) = Inr (s', l')"
      by (rule run)
    show "file_start_timestamp l' =
               (if first_time s
                then - (if first_keyframe_timestamp l = - 1 then ucast (timestamp k)
                        else first_keyframe_timestamp l)
                else ucast (lvt + frame_interval cfg - timestamp k))"
      unfolding offset by (rule formula)
    show "outfile s' = outfile s
      @ map (retime (file_start_timestamp l'))
          (non_overlapping (file_start_timestamp l') (sint (last_audio_timestamp s)) (pktarray s))
      @ hs @ [retime (file_start_timestamp l') k]"
      unfolding offset by (rule out)
    show "seq_header_pkt s = None \<Longrightarrow> hs = []"
      using none by simp
    show "\<And>h. seq_header_pkt s = Some h \<Longrightarrow>
                  hs = [] \<and> type h = 8
                  \<or> hs = [retime (file_start_timestamp l') (h\<lparr>timestamp := timestamp k\<rparr>)]"
      unfolding offset using some by simp
    show "pktarray s' = []" and "seq_header_pkt s' = None" and "\<not> first_time s'"
      by (rule cleared later)+
  qed
qed

















lemma conv_ui32_take: "take 4 p = take 4 q \<Longrightarrow> conv_ui32 be p = conv_ui32 be q"
  by (simp add: conv_ui32_def)

lemma append_file_start:
  assumes run: "append_file cfg (Some content, mark_in, mark_out) s = Inr s'"
  shows "length content < 9 \<Longrightarrow> \<exists>b. s' = s\<lparr>buff := b\<rparr>"
    and "9 \<le> length content \<Longrightarrow>
         \<exists>b l'. append_loop cfg mark_in mark_out (last_video_timestamp s)
                  (s\<lparr>buff := b\<rparr>,
                   \<lparr>file_start_timestamp = - 999999, first_keyframe_timestamp = - 1\<rparr>)
                  (after_header cfg content)
                = Inr (s', l')"
proof -
  assume "length content < 9"
  with run show "\<exists>b. s' = s\<lparr>buff := b\<rparr>"
    by (auto simp add: append_file_def fread_def Let_def)
next
  assume long: "9 \<le> length content"
  define b0 where "b0 = (if buff s = [] then grow (heap_junk cfg) [] 13 else buff s)"
  define b1 where "b1 = overwrite b0 0 (take 9 content)"
  from long have b1: "b1 = take 9 content @ drop 9 b0"
    by (simp add: b1_def overwrite_def)
  from long have sig: "take 3 b1 = take 3 content"
    by (simp add: b1 min_def)
  from long have "take 4 (drop 5 b1) = take 4 (drop 5 content)"
    by (simp add: b1 take_drop)
  then have len: "conv_ui32 (big_endian cfg) (drop 5 b1) = conv_ui32 (big_endian cfg) (drop 5 content)"
    by (rule conv_ui32_take)
  show "\<exists>b l'. append_loop cfg mark_in mark_out (last_video_timestamp s)
                  (s\<lparr>buff := b\<rparr>,
                   \<lparr>file_start_timestamp = - 999999, first_keyframe_timestamp = - 1\<rparr>)
                  (after_header cfg content)
                = Inr (s', l')"
  proof (cases "take 3 content = c_string ''FLV''")
    case False
    with sig have "take 3 b1 \<noteq> c_string ''FLV''"
      by simp
    with run long False show ?thesis
      by (auto simp add: append_file_def fread_def Let_def map_sum_fst_Inr after_header_def
          b1_def b0_def)
  next
    case True
    define n where "n = unat ((ucast (conv_ui32 (big_endian cfg) (drop 5 content)) :: size_t) - 9 + 4)"
    from long have stream: "\<lparr>remaining = drop n (drop 9 content),
          at_eof = (length content < 9 \<or> length content - 9 < n)\<rparr>
        = after_header cfg content"
      using True by (auto simp add: after_header_def Let_def n_def add.commute)
    from True sig have "take 3 b1 = c_string ''FLV''"
      by simp
    with run long len show ?thesis
      unfolding stream [symmetric]
      by (auto simp add: append_file_def fread_def Let_def map_sum_fst_Inr n_def
          b1_def b0_def split: if_splits)
  qed
qed


section \<open>Claims about the binary primitive codec\<close>

text \<open>
  Claim C7. For each pair of the binary primitive codec, decoding the encoded wire bytes
  gives back the original value, on a host of either byte order: for every 16-bit
  value; for every 32-bit value written in the 24-bit format together with its extension
  byte (the fourth byte that \<open>format_ui24\<close> leaves in its buffer, passed as
  \<open>highbyte\<close>); for every value that fits in 24 bits when the extension byte is not
  used (\<open>highbyte = 0\<close>); for every 32-bit value; and for every 64-bit double, taken
  as its bit pattern.
\<close>

theorem codec_round_trip:
  "conv_ui16 be (format_ui16 be a) = a
   \<and> conv_ui24 be (format_ui24 be b) (format_ui24 be b ! 3) = b
   \<and> (c \<le> 0xFFFFFF \<longrightarrow> conv_ui24 be (format_ui24 be c) 0 = c)
   \<and> conv_ui32 be (format_ui32 be d) = d
   \<and> conv_double be (format_double be e) = e"
  by (simp add: conv_format_ui16 conv_format_ui32 conv_format_double conv_format_ui24_ext
      conv_format_ui24_plain)

theorem codec_round_trip_witness:
  "conv_ui16 False (format_ui16 False 0x1234) = 0x1234
   \<and> conv_ui24 False (format_ui24 False 0x12345678) (format_ui24 False 0x12345678 ! 3)
       = 0x12345678
   \<and> ((0xFFFFFF :: u32) \<le> 0xFFFFFF \<and> conv_ui24 False (format_ui24 False 0xFFFFFF) 0 = 0xFFFFFF)
   \<and> conv_ui32 False (format_ui32 False 0xFFFFFFFF) = 0xFFFFFFFF
   \<and> conv_double False (format_double False 0x3FF0000000000000) = 0x3FF0000000000000"
  using codec_round_trip [of False "0x1234" "0x12345678" "0xFFFFFF" "0xFFFFFFFF"
      "0x3FF0000000000000"]
  by simp

section \<open>Claims about the join engine\<close>










text \<open>
  Claim C3, as the specification states it, does not hold: the cached sequence header
  is not forwarded before the Pending Buffer. For a first file with an AVC
  configuration record, an audio packet at 0 ms and a video key frame at 0 ms the
  output is the audio packet, the configuration record, the key frame, in this order.
\<close>

theorem sequence_header_first_counterexample:
  "map_sum id outfile
     (main example_config
        [(Some (example_file [config_record 0 1, audio_packet 0, key_frame 0]), 0, 99999000)])
   = Inr [audio_packet 0, config_record 0 1, key_frame 0]
   \<and> map_sum id outfile
     (main example_config
        [(Some (example_file [config_record 0 1, audio_packet 0, key_frame 0]), 0, 99999000)])
   \<noteq> Inr [config_record 0 1, audio_packet 0, key_frame 0]"
  by code_simp

text \<open>
  Claim C3, amended. When the first key-frame video packet of a file fixes the offset
  while a sequence header is cached, the packets of the Pending Buffer (audio packets)
  pass through \<open>write_packet\<close> first, in arrival order; then the cached sequence header
  is written with its timestamp set to the key frame's; then the key frame itself. The
  cache and the buffer are empty afterwards.
\<close>

theorem sequence_header_order:
  assumes seeking: "file_start_timestamp l = - 999999"
    and video: "type k = 9" and key: "is_key_frame k = Inr True"
    and marks: "mark_in \<le> timestamp k" "timestamp k < mark_out"
    and cached: "seq_header_pkt s = Some header" "type header = 9"
    and pending: "\<forall>q\<in>set (pktarray s). type q = 8"
  shows "\<exists>s' l'. handle_packet cfg mark_in mark_out lvt k (s, l) = Inr (s', l')
           \<and> outfile s' =
               outfile (foldl (\<lambda>s q. write_packet q (file_start_timestamp l') s) s (pktarray s))
               @ [retime (file_start_timestamp l') (header\<lparr>timestamp := timestamp k\<rparr>),
                  retime (file_start_timestamp l') k]
           \<and> seq_header_pkt s' = None \<and> pktarray s' = []"
proof -
  from video have "type k \<noteq> 18" by simp
  then have "handle_packet cfg mark_in mark_out lvt k (s, l)
               = route_packet cfg mark_in mark_out lvt k (s, l)"
    using is_sequence_header_cached [OF cached(1)] by (rule handle_not_captured)
  with pending video cached show ?thesis
    by (simp add: route_key_frame [OF seeking video key marks] Let_def buffer_packet_flush
        foldl_write_packet_first_time write_packet_video)
qed

text \<open>
  Witness for C3: a cached configuration record, one pending audio packet at 0 ms and
  a key frame at 0 ms.
\<close>

theorem sequence_header_order_witness:
  "file_start_timestamp seeking_start = - 999999
   \<and> type (key_frame 0) = 9 \<and> is_key_frame (key_frame 0) = Inr True
   \<and> (0 :: u32) \<le> timestamp (key_frame 0) \<and> timestamp (key_frame 0) < 99999000
   \<and> seq_header_pkt (initial_state\<lparr>seq_header_pkt := Some (config_record 0 1),
                                   pktarray := [audio_packet 0]\<rparr>) = Some (config_record 0 1)
   \<and> type (config_record 0 1) = 9
   \<and> map type (pktarray (initial_state\<lparr>seq_header_pkt := Some (config_record 0 1),
                                           pktarray := [audio_packet 0]\<rparr>)) = [8]
   \<and> (\<exists>s' l'. handle_packet example_config 0 99999000 0 (key_frame 0)
                 (initial_state\<lparr>seq_header_pkt := Some (config_record 0 1),
                                pktarray := [audio_packet 0]\<rparr>, seeking_start) = Inr (s', l')
          \<and> outfile s' = [audio_packet 0, config_record 0 1, key_frame 0]
          \<and> seq_header_pkt s' = None \<and> pktarray s' = [])"
proof -
  let ?s = "initial_state\<lparr>seq_header_pkt := Some (config_record 0 1),
                          pktarray := [audio_packet 0]\<rparr>"
  have seeking: "file_start_timestamp seeking_start = - 999999"
    by (simp add: seeking_start_def)
  have video: "type (key_frame 0) = 9" and key: "is_key_frame (key_frame 0) = Inr True"
    by code_simp+
  have marks: "(0 :: u32) \<le> timestamp (key_frame 0)" "timestamp (key_frame 0) < 99999000"
    by code_simp+
  have cached: "seq_header_pkt ?s = Some (config_record 0 1)" "type (config_record 0 1) = 9"
    by code_simp+
  have pending: "\<forall>q\<in>set (pktarray ?s). type q = 8"
    by (simp add: audio_packet_def example_packet_def)
  have "map_sum id (outfile \<circ> fst)
          (handle_packet example_config 0 99999000 0 (key_frame 0) (?s, seeking_start))
        = Inr [audio_packet 0, config_record 0 1, key_frame 0]"
    by code_simp
  moreover have "map type (pktarray ?s) = [8]"
    by code_simp
  ultimately show ?thesis
    using sequence_header_order [OF seeking video key marks cached pending, of example_config 0]
      seeking video key marks cached
    by auto
qed

text \<open>
  Claim C4, as the specification states it, does not hold: a configuration record
  that arrives while a sequence header is cached does not replace it and is forwarded
  like an ordinary video packet. For a file with two configuration records the output
  is the first one, from the cache, followed by the second one, and the cache is empty
  afterwards.
\<close>

theorem later_config_record_counterexample:
  "map_sum id outfile
     (main example_config
        [(Some (example_file [config_record 0 1, config_record 0 2]), 0, 99999000)])
   = Inr [config_record 0 1, config_record 0 2]
   \<and> map_sum id seq_header_pkt
     (main example_config
        [(Some (example_file [config_record 0 1, config_record 0 2]), 0, 99999000)])
   = Inr None"
  by code_simp


text \<open>
  Claim C4, amended. A video packet whose first payload byte has low nibble 7 and
  whose second payload byte is 0 is captured as the cached sequence header, and is not
  written, when no sequence header is cached: the state changes in nothing but the
  cache (first part). While a sequence header is cached, no packet replaces it: every
  packet other than script data, a configuration record included, goes on to trimming
  and state handling as an ordinary packet, and afterwards the cache holds the same
  sequence header or has been emptied by a flush (second part). The cache is a single
  slot, so at most one sequence header is live at any time.
\<close>

theorem sequence_header_capture:
  "(type p = 9 \<and> seq_header_pkt s = None \<and> data p = b0 # b1 # rest \<and> b0 AND 0x0f = 7 \<and> b1 = 0
      \<longrightarrow> handle_packet cfg mark_in mark_out lvt p (s, l)
            = Inr (s\<lparr>seq_header_pkt := Some (p\<lparr>data := payload p\<rparr>)\<rparr>, l))
   \<and> (seq_header_pkt s = Some header \<and> type p \<noteq> 18
        \<and> handle_packet cfg mark_in mark_out lvt p (s, l) = Inr (s', l')
      \<longrightarrow> route_packet cfg mark_in mark_out lvt p (s, l) = Inr (s', l')
          \<and> (seq_header_pkt s' = Some header \<or> seq_header_pkt s' = None))"
proof (intro conjI impI)
  assume "type p = 9 \<and> seq_header_pkt s = None \<and> data p = b0 # b1 # rest \<and> b0 AND 0x0f = 7 \<and> b1 = 0"
  then show "handle_packet cfg mark_in mark_out lvt p (s, l)
            = Inr (s\<lparr>seq_header_pkt := Some (p\<lparr>data := payload p\<rparr>)\<rparr>, l)"
    using capture_sequence_header [of p s b0 b1 rest cfg mark_in mark_out lvt l] by blast
next
  assume h: "seq_header_pkt s = Some header \<and> type p \<noteq> 18
        \<and> handle_packet cfg mark_in mark_out lvt p (s, l) = Inr (s', l')"
  then have "handle_packet cfg mark_in mark_out lvt p (s, l)
      = route_packet cfg mark_in mark_out lvt p (s, l)"
    using handle_not_captured is_sequence_header_cached by blast
  with h show "route_packet cfg mark_in mark_out lvt p (s, l) = Inr (s', l')"
    by simp
  with h show "seq_header_pkt s' = Some header \<or> seq_header_pkt s' = None"
    using route_packet_seq_header [of cfg mark_in mark_out lvt p s l s' l'] by auto
qed


text \<open>
  Witness for C4: a configuration record met with an empty cache, and a second one met
  while the first is cached.
\<close>

theorem sequence_header_capture_witness:
  "type (config_record 0 1) = 9 \<and> seq_header_pkt initial_state = None
   \<and> data (config_record 0 1) = 0x17 # 0 # [1] \<and> (0x17 :: byte) AND 0x0f = 7
   \<and> handle_packet example_config 0 99999000 0 (config_record 0 1) (initial_state, seeking_start)
       = Inr (initial_state\<lparr>seq_header_pkt :=
                Some ((config_record 0 1)\<lparr>data := payload (config_record 0 1)\<rparr>)\<rparr>,
              seeking_start)
   \<and> seq_header_pkt (initial_state\<lparr>seq_header_pkt := Some (config_record 0 1)\<rparr>)
       = Some (config_record 0 1)
   \<and> type (config_record 0 2) \<noteq> 18
   \<and> (\<exists>s' l'. handle_packet example_config 0 99999000 0 (config_record 0 2)
                  (initial_state\<lparr>seq_header_pkt := Some (config_record 0 1)\<rparr>, seeking_start)
                = Inr (s', l')
          \<and> route_packet example_config 0 99999000 0 (config_record 0 2)
                  (initial_state\<lparr>seq_header_pkt := Some (config_record 0 1)\<rparr>, seeking_start)
                = Inr (s', l')
          \<and> outfile s' = [config_record 0 1, config_record 0 2]
          \<and> (seq_header_pkt s' = Some (config_record 0 1) \<or> seq_header_pkt s' = None))"
proof -
  let ?s = "initial_state\<lparr>seq_header_pkt := Some (config_record 0 1)\<rparr>"
  have empty: "type (config_record 0 1) = 9 \<and> seq_header_pkt initial_state = None
      \<and> data (config_record 0 1) = 0x17 # 0 # [1] \<and> (0x17 :: byte) AND 0x0f = 7
      \<and> (0 :: byte) = 0"
    by code_simp
  have cached: "seq_header_pkt ?s = Some (config_record 0 1)" "type (config_record 0 2) \<noteq> 18"
    by code_simp+
  have "map_sum id (outfile \<circ> fst)
          (handle_packet example_config 0 99999000 0 (config_record 0 2) (?s, seeking_start))
        = Inr [config_record 0 1, config_record 0 2]"
    by code_simp
  then obtain s' l' where run: "handle_packet example_config 0 99999000 0 (config_record 0 2)
        (?s, seeking_start) = Inr (s', l')"
    and out: "outfile s' = [config_record 0 1, config_record 0 2]"
    by (cases "handle_packet example_config 0 99999000 0 (config_record 0 2) (?s, seeking_start)")
      auto
  have "handle_packet example_config 0 99999000 0 (config_record 0 1) (initial_state, seeking_start)
       = Inr (initial_state\<lparr>seq_header_pkt :=
                Some ((config_record 0 1)\<lparr>data := payload (config_record 0 1)\<rparr>)\<rparr>,
              seeking_start)"
    by (rule sequence_header_capture [of "config_record 0 1" initial_state "0x17" 0 "[1]"
          example_config 0 99999000 0 seeking_start, THEN conjunct1, THEN mp])
      (rule empty)
  moreover
  have "route_packet example_config 0 99999000 0 (config_record 0 2) (?s, seeking_start)
          = Inr (s', l')
        \<and> (seq_header_pkt s' = Some (config_record 0 1) \<or> seq_header_pkt s' = None)"
    by (rule sequence_header_capture [of "config_record 0 2" ?s _ _ _ example_config 0 99999000 0
          seeking_start "config_record 0 1" s' l', THEN conjunct2, THEN mp])
      (intro conjI cached run)
  ultimately show ?thesis
    using empty cached run out by (intro conjI exI [of _ s'] exI [of _ l']) simp_all
qed

text \<open>
  Claim C5, as the specification states it, does not hold: the Pending Buffer is not
  emptied at the start of a file. A first file with nothing but an audio packet at
  500 ms ends with that packet in the buffer and nothing written; a second file with a
  key frame at 1000 ms then flushes it with its own offset of \<open>-1000\<close> ms, so that the
  audio packet of the first file is written with the timestamp \<open>500 - 1000\<close> (modulo
  \<open>2^32\<close>).
\<close>

theorem pending_buffer_counterexample:
  "map_sum id pktarray
     (main example_config [(Some (example_file [audio_packet 500]), 0, 99999000)])
   = Inr [audio_packet 500]
   \<and> map_sum id outfile
     (main example_config [(Some (example_file [audio_packet 500]), 0, 99999000)])
   = Inr []
   \<and> map_sum id outfile
     (main example_config
        [(Some (example_file [audio_packet 500]), 0, 99999000),
         (Some (example_file [key_frame 1000]), 0, 99999000)])
   = Inr [audio_packet (500 - 1000), key_frame 0]"
  by code_simp


text \<open>
  Claim C5, amended. A file that cannot be opened leaves the state as it is. A file
  that is read starts in SeekingStart (\<open>file_start_timestamp = -999999\<close>) with the
  Pending Buffer as the file before left it: the loop of \<open>append_file\<close> starts from the
  state at the end of the previous file, in which only the read buffer \<open>buff\<close> has
  changed, on the stream behind the header (\<open>after_header\<close>); a file of less than 9
  bytes changes nothing but the read buffer (first and second part). In SeekingStart a
  qualifying audio packet is appended to the buffer and nothing is written (third
  part); a packet that is neither a qualifying audio packet nor a qualifying video key
  frame leaves the buffer and the output as they are (fourth part). A qualifying video
  key frame assigns the offset and flushes the buffer: the buffered audio packets are
  written with that offset, in arrival order and each once, except those that overlap
  (\<open>non_overlapping\<close>: an audio packet is left out when its timestamp plus the offset,
  modulo \<open>2^32\<close>, does not exceed that of the audio tag written before it); then the
  cached sequence header, if there is one, with the key frame's timestamp; then the key
  frame. The buffer and the cache are empty afterwards (fifth part). Once the offset is
  known it stays, and no packet is buffered (sixth part). So the packets that a file
  without a qualifying video key frame leaves in the buffer are written with the offset
  of the next file that has one, or never.

  The Pending Buffer only ever holds audio packets and the cache a video packet, which
  the fifth part assumes. The value \<open>-999999\<close> doubles as the mark of an undetermined
  offset: when it is the offset assigned, the file stays in SeekingStart behind the
  flush; the amended claim says nothing about the packets that follow in that case.
\<close>

theorem pending_buffer_flush:
  "append_file cfg (None, mark_in, mark_out) s = Inr s
   \<and> (append_file cfg (Some content, mark_in, mark_out) s = Inr s1
      \<longrightarrow> (length content < 9 \<longrightarrow> (\<exists>b. s1 = s\<lparr>buff := b\<rparr>))
          \<and> (9 \<le> length content
             \<longrightarrow> (\<exists>b l1. append_loop cfg mark_in mark_out (last_video_timestamp s)
                    (s\<lparr>buff := b\<rparr>,
                     \<lparr>file_start_timestamp = - 999999, first_keyframe_timestamp = - 1\<rparr>)
                    (after_header cfg content)
                  = Inr (s1, l1))))
   \<and> (file_start_timestamp l = - 999999 \<and> type a = 8
        \<and> mark_in \<le> timestamp a \<and> timestamp a < mark_out
      \<longrightarrow> (\<exists>l'. handle_packet cfg mark_in mark_out lvt a (s, l)
                  = Inr (s\<lparr>pktarray := pktarray s @ [a\<lparr>data := payload a\<rparr>]\<rparr>, l')
                \<and> file_start_timestamp l' = - 999999))
   \<and> (file_start_timestamp l = - 999999
        \<and> handle_packet cfg mark_in mark_out lvt p (s, l) = Inr (sp, lp)
        \<and> \<not> (type p = 8 \<and> mark_in \<le> timestamp p \<and> timestamp p < mark_out)
        \<and> \<not> (type p = 9 \<and> is_key_frame p = Inr True
              \<and> mark_in \<le> timestamp p \<and> timestamp p < mark_out
              \<and> is_sequence_header s p = Inr False)
      \<longrightarrow> pktarray sp = pktarray s \<and> outfile sp = outfile s
          \<and> file_start_timestamp lp = - 999999)
   \<and> (file_start_timestamp l = - 999999 \<and> type k = 9 \<and> is_key_frame k = Inr True
        \<and> mark_in \<le> timestamp k \<and> timestamp k < mark_out
        \<and> is_sequence_header s k = Inr False \<and> (\<forall>q\<in>set (pktarray s). type q = 8)
        \<and> (\<forall>h. seq_header_pkt s = Some h \<longrightarrow> type h = 9)
      \<longrightarrow> (\<exists>s' l'. handle_packet cfg mark_in mark_out lvt k (s, l) = Inr (s', l')
             \<and> file_start_timestamp l' =
                 (if first_time s
                  then - (if first_keyframe_timestamp l = - 1 then ucast (timestamp k)
                          else first_keyframe_timestamp l)
                  else ucast (lvt + frame_interval cfg - timestamp k))
             \<and> outfile s' = outfile s
                 @ map (retime (file_start_timestamp l'))
                     (non_overlapping (file_start_timestamp l') (sint (last_audio_timestamp s))
                        (pktarray s))
                 @ (case seq_header_pkt s of
                      None \<Rightarrow> []
                    | Some h \<Rightarrow> [retime (file_start_timestamp l') (h\<lparr>timestamp := timestamp k\<rparr>)])
                 @ [retime (file_start_timestamp l') k]
             \<and> pktarray s' = [] \<and> seq_header_pkt s' = None))
   \<and> (file_start_timestamp l \<noteq> - 999999
        \<and> handle_packet cfg mark_in mark_out lvt p (s, l) = Inr (sp, lp)
      \<longrightarrow> pktarray sp = pktarray s \<and> file_start_timestamp lp = file_start_timestamp l)"
proof (intro conjI impI)
  show "append_file cfg (None, mark_in, mark_out) s = Inr s"
    by (simp add: append_file_def)
next
  assume "append_file cfg (Some content, mark_in, mark_out) s = Inr s1"
    and "length content < 9"
  then show "\<exists>b. s1 = s\<lparr>buff := b\<rparr>"
    by (rule append_file_start)
next
  assume "append_file cfg (Some content, mark_in, mark_out) s = Inr s1"
    and "9 \<le> length content"
  then show "\<exists>b l1. append_loop cfg mark_in mark_out (last_video_timestamp s)
                    (s\<lparr>buff := b\<rparr>,
                     \<lparr>file_start_timestamp = - 999999, first_keyframe_timestamp = - 1\<rparr>)
                    (after_header cfg content)
                  = Inr (s1, l1)"
    by (rule append_file_start)
next
  assume "file_start_timestamp l = - 999999 \<and> type a = 8
        \<and> mark_in \<le> timestamp a \<and> timestamp a < mark_out"
  then show "\<exists>l'. handle_packet cfg mark_in mark_out lvt a (s, l)
                  = Inr (s\<lparr>pktarray := pktarray s @ [a\<lparr>data := payload a\<rparr>]\<rparr>, l')
                \<and> file_start_timestamp l' = - 999999"
    using seeking_audio_buffered [of l a mark_in mark_out cfg lvt s] by blast
next
  assume h: "file_start_timestamp l = - 999999
        \<and> handle_packet cfg mark_in mark_out lvt p (s, l) = Inr (sp, lp)
        \<and> \<not> (type p = 8 \<and> mark_in \<le> timestamp p \<and> timestamp p < mark_out)
        \<and> \<not> (type p = 9 \<and> is_key_frame p = Inr True
              \<and> mark_in \<le> timestamp p \<and> timestamp p < mark_out
              \<and> is_sequence_header s p = Inr False)"
  then have run: "handle_packet cfg mark_in mark_out lvt p (s, l) = Inr (sp, lp)"
    and seeking: "file_start_timestamp l = - 999999"
    and other: "\<not> (type p = 9 \<and> is_key_frame p = Inr True
              \<and> mark_in \<le> timestamp p \<and> timestamp p < mark_out
              \<and> is_sequence_header s p = Inr False)"
    and quiet: "\<not> (type p = 8 \<and> mark_in \<le> timestamp p \<and> timestamp p < mark_out)"
    by simp_all
  note step = seeking_step [OF run seeking other]
  from step(4) quiet show "pktarray sp = pktarray s"
    by simp
  from step(1) show "outfile sp = outfile s" .
  from step(2) show "file_start_timestamp lp = - 999999" .
next
  assume h: "file_start_timestamp l = - 999999 \<and> type k = 9 \<and> is_key_frame k = Inr True
        \<and> mark_in \<le> timestamp k \<and> timestamp k < mark_out
        \<and> is_sequence_header s k = Inr False \<and> (\<forall>q\<in>set (pktarray s). type q = 8)
        \<and> (\<forall>h. seq_header_pkt s = Some h \<longrightarrow> type h = 9)"
  then have seeking: "file_start_timestamp l = - 999999"
    and video: "type k = 9" and key: "is_key_frame k = Inr True"
    and marks: "mark_in \<le> timestamp k" "timestamp k < mark_out"
    and routed: "is_sequence_header s k = Inr False"
    and pending: "\<forall>q\<in>set (pktarray s). type q = 8"
    and cached: "\<forall>h. seq_header_pkt s = Some h \<longrightarrow> type h = 9"
    by simp_all
  from seeking video key marks routed pending
  show "\<exists>s' l'. handle_packet cfg mark_in mark_out lvt k (s, l) = Inr (s', l')
             \<and> file_start_timestamp l' =
                 (if first_time s
                  then - (if first_keyframe_timestamp l = - 1 then ucast (timestamp k)
                          else first_keyframe_timestamp l)
                  else ucast (lvt + frame_interval cfg - timestamp k))
             \<and> outfile s' = outfile s
                 @ map (retime (file_start_timestamp l'))
                     (non_overlapping (file_start_timestamp l') (sint (last_audio_timestamp s))
                        (pktarray s))
                 @ (case seq_header_pkt s of
                      None \<Rightarrow> []
                    | Some h \<Rightarrow> [retime (file_start_timestamp l') (h\<lparr>timestamp := timestamp k\<rparr>)])
                 @ [retime (file_start_timestamp l') k]
             \<and> pktarray s' = [] \<and> seq_header_pkt s' = None"
  proof (cases rule: key_frame_flush [where cfg = cfg and lvt = lvt])
    case (flushed s' l' hs)
    have "hs = (case seq_header_pkt s of
                  None \<Rightarrow> []
                | Some h \<Rightarrow> [retime (file_start_timestamp l') (h\<lparr>timestamp := timestamp k\<rparr>)])"
    proof (cases "seq_header_pkt s")
      case None
      with flushed(4) show ?thesis by simp
    next
      case (Some h)
      with cached have "type h \<noteq> 8" by simp
      with flushed(5) [OF Some] Some show ?thesis by simp
    qed
    with flushed(3) have out: "outfile s' = outfile s
                 @ map (retime (file_start_timestamp l'))
                     (non_overlapping (file_start_timestamp l') (sint (last_audio_timestamp s))
                        (pktarray s))
                 @ (case seq_header_pkt s of
                      None \<Rightarrow> []
                    | Some h \<Rightarrow> [retime (file_start_timestamp l') (h\<lparr>timestamp := timestamp k\<rparr>)])
                 @ [retime (file_start_timestamp l') k]"
      by (simp only:)
    show ?thesis
      by (rule exI [of _ s'], rule exI [of _ l'], intro conjI)
        (rule flushed(1) flushed(2) out flushed(6) flushed(7))+
  qed
next
  assume h: "file_start_timestamp l \<noteq> - 999999
        \<and> handle_packet cfg mark_in mark_out lvt p (s, l) = Inr (sp, lp)"
  then show "pktarray sp = pktarray s" and "file_start_timestamp lp = file_start_timestamp l"
    using streaming_keeps_buffer [of l cfg mark_in mark_out lvt p s sp lp] by blast+
qed


text \<open>
  Witness for C5: a file name that cannot be opened, a file of one byte, and the file
  with one audio packet at 500 ms, which is read from behind its 13 header bytes and
  leaves the packet in the buffer; that audio packet in SeekingStart, and an inter frame
  that is discarded there; a key frame at 1000 ms that follows a last video timestamp
  of 900 ms and flushes a cached configuration record and the pending audio packets
  at 500, 400 and 600 ms with the offset 0, the packet at 400 ms being dropped; and
  an audio packet met once the offset is known.
\<close>

theorem pending_buffer_flush_witness:
  "append_file example_config (None, 0, 99999000) initial_state = Inr initial_state
   \<and> length [0x46 :: byte] < 9
   \<and> (\<exists>s1 b. append_file example_config (Some [0x46], 0, 99999000) initial_state = Inr s1
          \<and> s1 = initial_state\<lparr>buff := b\<rparr>)
   \<and> 9 \<le> length (example_file [audio_packet 500])
   \<and> after_header example_config (example_file [audio_packet 500])
       = \<lparr>remaining = tag_bytes False (audio_packet 500), at_eof = False\<rparr>
   \<and> (\<exists>s1 b l1. append_file example_config
                   (Some (example_file [audio_packet 500]), 0, 99999000) initial_state = Inr s1
          \<and> pktarray s1 = [audio_packet 500] \<and> outfile s1 = []
          \<and> append_loop example_config 0 99999000 (last_video_timestamp initial_state)
               (initial_state\<lparr>buff := b\<rparr>,
                \<lparr>file_start_timestamp = - 999999, first_keyframe_timestamp = - 1\<rparr>)
               (after_header example_config (example_file [audio_packet 500]))
             = Inr (s1, l1))
   \<and> file_start_timestamp seeking_start = - 999999 \<and> type (audio_packet 500) = 8
   \<and> (0 :: u32) \<le> timestamp (audio_packet 500) \<and> timestamp (audio_packet 500) < 99999000
   \<and> (\<exists>l'. handle_packet example_config 0 99999000 0 (audio_packet 500)
               (initial_state, seeking_start)
             = Inr (initial_state\<lparr>pktarray := pktarray initial_state
                      @ [(audio_packet 500)\<lparr>data := payload (audio_packet 500)\<rparr>]\<rparr>, l')
           \<and> file_start_timestamp l' = - 999999)
   \<and> type (inter_frame 10) = 9 \<and> is_key_frame (inter_frame 10) = Inr False
   \<and> (\<exists>sp lp. handle_packet example_config 0 99999000 0 (inter_frame 10)
               (initial_state\<lparr>pktarray := [audio_packet 500]\<rparr>, seeking_start) = Inr (sp, lp)
           \<and> pktarray sp = [audio_packet 500] \<and> outfile sp = []
           \<and> file_start_timestamp lp = - 999999)
   \<and> type (key_frame 1000) = 9 \<and> is_key_frame (key_frame 1000) = Inr True
   \<and> (0 :: u32) \<le> timestamp (key_frame 1000) \<and> timestamp (key_frame 1000) < 99999000
   \<and> is_sequence_header
         (initial_state\<lparr>seq_header_pkt := Some (config_record 0 1), first_time := False,
            pktarray := [audio_packet 500, audio_packet 400, audio_packet 600]\<rparr>)
         (key_frame 1000) = Inr False
   \<and> map type (pktarray
         (initial_state\<lparr>seq_header_pkt := Some (config_record 0 1), first_time := False,
            pktarray := [audio_packet 500, audio_packet 400, audio_packet 600]\<rparr>)) = [8, 8, 8]
   \<and> map_option type (seq_header_pkt
         (initial_state\<lparr>seq_header_pkt := Some (config_record 0 1), first_time := False,
            pktarray := [audio_packet 500, audio_packet 400, audio_packet 600]\<rparr>)) = Some 9
   \<and> (\<exists>s' l'. handle_packet example_config 0 99999000 900 (key_frame 1000)
               (initial_state\<lparr>seq_header_pkt := Some (config_record 0 1), first_time := False,
                  pktarray := [audio_packet 500, audio_packet 400, audio_packet 600]\<rparr>,
                seeking_start) = Inr (s', l')
           \<and> file_start_timestamp l' = 0
           \<and> outfile s'
               = [audio_packet 500, audio_packet 600, config_record 1000 1, key_frame 1000]
           \<and> pktarray s' = [] \<and> seq_header_pkt s' = None)
   \<and> file_start_timestamp (seeking_start\<lparr>file_start_timestamp := 0\<rparr>) \<noteq> - 999999
   \<and> (\<exists>sp lp. handle_packet example_config 0 99999000 0 (audio_packet 500)
               (initial_state, seeking_start\<lparr>file_start_timestamp := 0\<rparr>) = Inr (sp, lp)
           \<and> outfile sp = [audio_packet 500]
           \<and> pktarray sp = pktarray initial_state
           \<and> file_start_timestamp lp
               = file_start_timestamp (seeking_start\<lparr>file_start_timestamp := 0\<rparr>))"
proof -
  let ?content = "example_file [audio_packet 500]"
  let ?one = "initial_state\<lparr>pktarray := [audio_packet 500]\<rparr>"
  let ?pending = "initial_state\<lparr>seq_header_pkt := Some (config_record 0 1), first_time := False,
      pktarray := [audio_packet 500, audio_packet 400, audio_packet 600]\<rparr>"
  let ?streaming = "seeking_start\<lparr>file_start_timestamp := 0\<rparr>"
  note rule = pending_buffer_flush [where cfg = example_config and mark_in = 0
      and mark_out = 99999000]
  have closed: "append_file example_config (None, 0, 99999000) initial_state = Inr initial_state"
    by (rule rule [where s = initial_state, THEN conjunct1])
  have tiny: "length [0x46 :: byte] < 9"
    by simp
  have "map_sum id (\<lambda>s. ())
          (append_file example_config (Some [0x46], 0, 99999000) initial_state) = Inr ()"
    by code_simp
  then obtain s0 where cut: "append_file example_config (Some [0x46], 0, 99999000) initial_state
      = Inr s0"
    by (cases "append_file example_config (Some [0x46], 0, 99999000) initial_state") auto
  from rule [where s = initial_state and content = "[0x46]" and ?s1.0 = s0,
      THEN conjunct2, THEN conjunct1] cut tiny
  obtain b0 where "s0 = initial_state\<lparr>buff := b0\<rparr>"
    by blast
  with cut have short: "\<exists>s1 b. append_file example_config (Some [0x46], 0, 99999000) initial_state
      = Inr s1 \<and> s1 = initial_state\<lparr>buff := b\<rparr>"
    by blast
  have long: "9 \<le> length ?content"
    by code_simp
  have stream: "after_header example_config ?content
      = \<lparr>remaining = tag_bytes False (audio_packet 500), at_eof = False\<rparr>"
    by code_simp
  have "map_sum id (\<lambda>s. (pktarray s, outfile s))
          (append_file example_config (Some ?content, 0, 99999000) initial_state)
        = Inr ([audio_packet 500], [])"
    by code_simp
  then obtain s1 where appended: "append_file example_config (Some ?content, 0, 99999000)
        initial_state = Inr s1"
    and left: "pktarray s1 = [audio_packet 500]" "outfile s1 = []"
    by (cases "append_file example_config (Some ?content, 0, 99999000) initial_state") auto
  from rule [where s = initial_state and content = ?content and ?s1.0 = s1,
      THEN conjunct2, THEN conjunct1] appended long
  obtain b l1 where "append_loop example_config 0 99999000 (last_video_timestamp initial_state)
               (initial_state\<lparr>buff := b\<rparr>,
                \<lparr>file_start_timestamp = - 999999, first_keyframe_timestamp = - 1\<rparr>)
               (after_header example_config ?content)
             = Inr (s1, l1)"
    by blast
  with appended left
  have start: "\<exists>s1 b l1. append_file example_config (Some ?content, 0, 99999000) initial_state
          = Inr s1
          \<and> pktarray s1 = [audio_packet 500] \<and> outfile s1 = []
          \<and> append_loop example_config 0 99999000 (last_video_timestamp initial_state)
               (initial_state\<lparr>buff := b\<rparr>,
                \<lparr>file_start_timestamp = - 999999, first_keyframe_timestamp = - 1\<rparr>)
               (after_header example_config ?content)
             = Inr (s1, l1)"
    by blast
  have audio: "file_start_timestamp seeking_start = - 999999 \<and> type (audio_packet 500) = 8
      \<and> (0 :: u32) \<le> timestamp (audio_packet 500) \<and> timestamp (audio_packet 500) < 99999000"
    by code_simp
  have buffered: "\<exists>l'. handle_packet example_config 0 99999000 0 (audio_packet 500)
               (initial_state, seeking_start)
             = Inr (initial_state\<lparr>pktarray := pktarray initial_state
                      @ [(audio_packet 500)\<lparr>data := payload (audio_packet 500)\<rparr>]\<rparr>, l')
           \<and> file_start_timestamp l' = - 999999"
    by (rule rule [where s = initial_state and l = seeking_start and a = "audio_packet 500"
          and lvt = 0, THEN conjunct2, THEN conjunct2, THEN conjunct1, THEN mp]) (rule audio)
  have inter: "type (inter_frame 10) = 9" "is_key_frame (inter_frame 10) = Inr False"
    by code_simp+
  have other: "\<not> (type (inter_frame 10) = 8 \<and> (0 :: u32) \<le> timestamp (inter_frame 10)
        \<and> timestamp (inter_frame 10) < 99999000)"
    "\<not> (type (inter_frame 10) = 9 \<and> is_key_frame (inter_frame 10) = Inr True
        \<and> (0 :: u32) \<le> timestamp (inter_frame 10) \<and> timestamp (inter_frame 10) < 99999000
        \<and> is_sequence_header ?one (inter_frame 10) = Inr False)"
    using inter by simp_all
  have "map_sum id (\<lambda>sl. ())
          (handle_packet example_config 0 99999000 0 (inter_frame 10) (?one, seeking_start))
        = Inr ()"
    by code_simp
  then obtain sq lq where skipped: "handle_packet example_config 0 99999000 0 (inter_frame 10)
      (?one, seeking_start) = Inr (sq, lq)"
    by (cases "handle_packet example_config 0 99999000 0 (inter_frame 10) (?one, seeking_start)")
      auto
  have held: "pktarray ?one = [audio_packet 500]" "outfile ?one = []"
    by code_simp+
  from rule [where s = ?one and l = seeking_start and p = "inter_frame 10" and lvt = 0
      and sp = sq and lp = lq,
      THEN conjunct2, THEN conjunct2, THEN conjunct2, THEN conjunct1] audio skipped other
  have "pktarray sq = pktarray ?one \<and> outfile sq = outfile ?one
      \<and> file_start_timestamp lq = - 999999"
    by blast
  with skipped held
  have discarded: "\<exists>sp lp. handle_packet example_config 0 99999000 0 (inter_frame 10)
               (?one, seeking_start) = Inr (sp, lp)
           \<and> pktarray sp = [audio_packet 500] \<and> outfile sp = []
           \<and> file_start_timestamp lp = - 999999"
    by (intro exI [of _ sq] exI [of _ lq]) simp
  have key: "type (key_frame 1000) = 9 \<and> is_key_frame (key_frame 1000) = Inr True
      \<and> (0 :: u32) \<le> timestamp (key_frame 1000) \<and> timestamp (key_frame 1000) < 99999000"
    "is_sequence_header ?pending (key_frame 1000) = Inr False"
    by code_simp+
  have types: "map type (pktarray ?pending) = [8, 8, 8]"
    "map_option type (seq_header_pkt ?pending) = Some 9"
    by code_simp+
  have pending: "\<forall>q\<in>set (pktarray ?pending). type q = 8"
    by (simp add: audio_packet_def example_packet_def)
  have cached: "\<forall>h. seq_header_pkt ?pending = Some h \<longrightarrow> type h = 9"
    by (simp add: config_record_def example_packet_def)
  have vals: "\<not> first_time ?pending"
    "(ucast ((900 :: u32) + frame_interval example_config - timestamp (key_frame 1000)) :: long) = 0"
    "outfile ?pending
       @ map (retime 0) (non_overlapping 0 (sint (last_audio_timestamp ?pending)) (pktarray ?pending))
       @ (case seq_header_pkt ?pending of
            None \<Rightarrow> []
          | Some h \<Rightarrow> [retime 0 (h\<lparr>timestamp := timestamp (key_frame 1000)\<rparr>)])
       @ [retime 0 (key_frame 1000)]
     = [audio_packet 500, audio_packet 600, config_record 1000 1, key_frame 1000]"
    by code_simp+
  have flushed: "\<exists>s' l'. handle_packet example_config 0 99999000 900 (key_frame 1000)
               (?pending, seeking_start) = Inr (s', l')
           \<and> file_start_timestamp l' = 0
           \<and> outfile s'
               = [audio_packet 500, audio_packet 600, config_record 1000 1, key_frame 1000]
           \<and> pktarray s' = [] \<and> seq_header_pkt s' = None"
  proof -
    from rule [where s = ?pending and l = seeking_start and k = "key_frame 1000" and lvt = 900,
        THEN conjunct2, THEN conjunct2, THEN conjunct2, THEN conjunct2, THEN conjunct1]
      audio key pending cached
    obtain s' l' where run: "handle_packet example_config 0 99999000 900 (key_frame 1000)
          (?pending, seeking_start) = Inr (s', l')"
      and offset: "file_start_timestamp l' =
          (if first_time ?pending
           then - (if first_keyframe_timestamp seeking_start = - 1
                   then ucast (timestamp (key_frame 1000))
                   else first_keyframe_timestamp seeking_start)
           else ucast (900 + frame_interval example_config - timestamp (key_frame 1000)))"
      and out: "outfile s' = outfile ?pending
          @ map (retime (file_start_timestamp l'))
              (non_overlapping (file_start_timestamp l') (sint (last_audio_timestamp ?pending))
                 (pktarray ?pending))
          @ (case seq_header_pkt ?pending of
               None \<Rightarrow> []
             | Some h \<Rightarrow> [retime (file_start_timestamp l')
                            (h\<lparr>timestamp := timestamp (key_frame 1000)\<rparr>)])
          @ [retime (file_start_timestamp l') (key_frame 1000)]"
      and cleared: "pktarray s' = []" "seq_header_pkt s' = None"
      by blast
    from offset vals(1,2) have zero: "file_start_timestamp l' = 0"
      by (simp only: if_False)
    from out vals(3)
    have "outfile s' = [audio_packet 500, audio_packet 600, config_record 1000 1, key_frame 1000]"
      by (simp only: zero)
    with run zero cleared show ?thesis
      by blast
  qed
  have known: "file_start_timestamp ?streaming \<noteq> - 999999"
    by code_simp
  have "map_sum id (outfile \<circ> fst)
          (handle_packet example_config 0 99999000 0 (audio_packet 500) (initial_state, ?streaming))
        = Inr [audio_packet 500]"
    by code_simp
  then obtain sp lp where run: "handle_packet example_config 0 99999000 0 (audio_packet 500)
        (initial_state, ?streaming) = Inr (sp, lp)"
    and out: "outfile sp = [audio_packet 500]"
    by (cases "handle_packet example_config 0 99999000 0 (audio_packet 500)
          (initial_state, ?streaming)") auto
  from rule [where s = initial_state and l = ?streaming and p = "audio_packet 500" and lvt = 0
      and sp = sp and lp = lp,
      THEN conjunct2, THEN conjunct2, THEN conjunct2, THEN conjunct2, THEN conjunct2] known run
  have "pktarray sp = pktarray initial_state
      \<and> file_start_timestamp lp = file_start_timestamp ?streaming"
    by blast
  with run out have streaming: "\<exists>sp lp. handle_packet example_config 0 99999000 0 (audio_packet 500)
               (initial_state, ?streaming) = Inr (sp, lp)
           \<and> outfile sp = [audio_packet 500]
           \<and> pktarray sp = pktarray initial_state
           \<and> file_start_timestamp lp = file_start_timestamp ?streaming"
    by blast
  from closed tiny short long stream start audio buffered inter discarded key types flushed
    known streaming
  show ?thesis
    by (intro conjI) (simp_all only: simp_thms)
qed










section \<open>Claims about the script-data decoder\<close>

text \<open>
  Claim C9, as the specification states it, does not hold: a type byte without a case
  in \<open>parse_number\<close> does not abort the decoding of the script packet. In the example
  the entry \<open>foo\<close> has the unhandled type 13; the decoder warns, goes on with the next
  byte, extracts the pair \<open>width\<close> = 640 that follows, and reports the packet as
  holding the metadata (\<open>onMetaData\<close> found); the metadata is kept, and the run goes on
  with the next packet.
\<close>

theorem unhandled_type_counterexample:
  "extract_metadata False example_script
     = Inr (True,
            [(c_string ''foo'', No_number),
             (c_string ''width'', Wire_double 0x4084000000000000),
             (c_string ''onMetaData'', No_number)],
            [13])
   \<and> map_sum id (meta_items \<circ> fst)
       (handle_packets (example_config\<lparr>no_meta := False\<rparr>) 0 99999000 0
          [example_script, key_frame 0] (initial_state, seeking_start))
     = Inr [(c_string ''foo'', No_number),
            (c_string ''width'', Wire_double 0x4084000000000000),
            (c_string ''onMetaData'', No_number)]
   \<and> map_sum id (outfile \<circ> fst)
       (handle_packets (example_config\<lparr>no_meta := False\<rparr>) 0 99999000 0
          [example_script, key_frame 0] (initial_state, seeking_start))
     = Inr [key_frame 0]"
  by code_simp


text \<open>
  Claim C9, amended. During script-data decoding a type byte without a case in
  \<open>parse_number\<close> consumes that byte alone, is reported in a warning and yields no
  number (\<open>-1\<close>) (first part); the decoding of the enclosing script packet is not
  aborted: the loop of \<open>extract_metadata\<close> records the pair with no number and goes on at
  the next byte, so that the pairs extracted before are kept and further pairs are
  extracted (second part). A missing terminator of a script object leaves the cursor
  where it is, without a diagnostic, and the decoding goes on from there (third part).
\<close>

theorem unhandled_type_continues:
  "(pos < length d \<and> d ! pos \<notin> set handled_types
      \<longrightarrow> parse_number be (Suc n) d pos = Inr (No_number, pos + 1, [], [d ! pos]))
   \<and> (int pos \<le> uint (dsz - 6) \<and> named_string be d pos = Inr (pos1, name)
        \<and> pos1 < length d \<and> d ! pos1 \<notin> set handled_types
      \<longrightarrow> extract_loop be (Suc k) d dsz pos found =
            (case extract_loop be k d dsz (pos1 + 1) (found \<or> name = c_string ''onMetaData'') of
               Inl e \<Rightarrow> Inl e
             | Inr (found', items, warnings) \<Rightarrow>
                 Inr (found', (name, No_number) # items, d ! pos1 # warnings)))
   \<and> (peek d pos = Inr marker
        \<and> named_string be d (if marker \<noteq> 2 then pos else pos + 1) = Inr (pos1, name)
        \<and> parse_number be n d pos1 = Inr (val, pos2, items, warnings)
        \<and> pos2 + 3 \<le> length d \<and> take 3 (drop pos2 d) \<noteq> [0, 0, 9]
      \<longrightarrow> parse_script_object be n d pos = Inr (pos2, items @ [(name, val)], warnings))"
  using parse_number_unhandled [of pos d be n]
    extract_loop_unhandled [of pos dsz be d pos1 name k found]
    parse_script_object_unclosed [of d pos marker be pos1 name n val pos2 items warnings]
  by blast


text \<open>
  Witness for C9: the type byte 13 alone; a pair named \<open>x\<close> with a value of type 13;
  and an object with the pair \<open>x\<close> = true (7) that is followed by three zero bytes in
  place of the terminator.
\<close>

theorem unhandled_type_continues_witness:
  "(0 :: nat) < length [13 :: byte] \<and> [13 :: byte] ! 0 \<notin> set handled_types
   \<and> parse_number False (Suc 0) [13] 0 = Inr (No_number, 0 + 1, [], [[13] ! 0])
   \<and> int 0 \<le> uint ((6 :: u32) - 6)
   \<and> named_string False [0, 1, 120, 13, 0, 0] 0 = Inr (3, [120])
   \<and> (3 :: nat) < length [0, 1, 120, 13, 0, 0 :: byte]
   \<and> [0, 1, 120, 13, 0, 0 :: byte] ! 3 \<notin> set handled_types
   \<and> extract_loop False (Suc 0) [0, 1, 120, 13, 0, 0] 6 0 False
       = Inr (False, [([120], No_number)], [13])
   \<and> peek [2, 0, 1, 120, 1, 7, 0, 0, 0] 0 = Inr 2
   \<and> named_string False [2, 0, 1, 120, 1, 7, 0, 0, 0] (if (2 :: byte) \<noteq> 2 then 0 else 0 + 1)
       = Inr (4, [120])
   \<and> parse_number False 1 [2, 0, 1, 120, 1, 7, 0, 0, 0] 4 = Inr (Of_byte 7, 6, [], [])
   \<and> (6 :: nat) + 3 \<le> length [2, 0, 1, 120, 1, 7, 0, 0, 0 :: byte]
   \<and> take 3 (drop 6 [2, 0, 1, 120, 1, 7, 0, 0, 0 :: byte]) \<noteq> [0, 0, 9]
   \<and> parse_script_object False 1 [2, 0, 1, 120, 1, 7, 0, 0, 0] 0
       = Inr (6, [] @ [([120], Of_byte 7)], [])"
proof -
  let ?d = "[0, 1, 120, 13, 0, 0 :: byte]"
  let ?o = "[2, 0, 1, 120, 1, 7, 0, 0, 0 :: byte]"
  have lone: "(0 :: nat) < length [13 :: byte] \<and> [13 :: byte] ! 0 \<notin> set handled_types"
    by code_simp
  have pair: "int 0 \<le> uint ((6 :: u32) - 6) \<and> named_string False ?d 0 = Inr (3, [120])
      \<and> (3 :: nat) < length ?d \<and> ?d ! 3 \<notin> set handled_types"
    by code_simp
  have rest: "extract_loop False 0 ?d 6 (3 + 1) (False \<or> [120] = c_string ''onMetaData'')
      = Inr (False, [], [])"
    by code_simp
  have object: "peek ?o 0 = Inr 2
      \<and> named_string False ?o (if (2 :: byte) \<noteq> 2 then 0 else 0 + 1) = Inr (4, [120])
      \<and> parse_number False 1 ?o 4 = Inr (Of_byte 7, 6, [], [])
      \<and> (6 :: nat) + 3 \<le> length ?o \<and> take 3 (drop 6 ?o) \<noteq> [0, 0, 9]"
    by code_simp
  have "parse_number False (Suc 0) [13] 0 = Inr (No_number, 0 + 1, [], [[13] ! 0])"
    by (rule unhandled_type_continues [of 0 "[13]" False 0, THEN conjunct1, THEN mp])
      (rule lone)
  moreover
  have "extract_loop False (Suc 0) ?d 6 0 False =
      (case extract_loop False 0 ?d 6 (3 + 1) (False \<or> [120] = c_string ''onMetaData'') of
         Inl e \<Rightarrow> Inl e
       | Inr (found', items, warnings) \<Rightarrow>
           Inr (found', ([120], No_number) # items, ?d ! 3 # warnings))"
    by (rule unhandled_type_continues [of 0 ?d False _ 6 3 "[120]" 0 False,
          THEN conjunct2, THEN conjunct1, THEN mp])
      (rule pair)
  then have "extract_loop False (Suc 0) ?d 6 0 False = Inr (False, [([120], No_number)], [13])"
    by (simp only: rest) simp
  moreover
  have "parse_script_object False 1 ?o 0 = Inr (6, [] @ [([120], Of_byte 7)], [])"
    by (rule unhandled_type_continues [of 0 ?o False 1 _ 4 "[120]" _ _ 2 "Of_byte 7" 6
          "[]" "[]", THEN conjunct2, THEN conjunct2, THEN mp])
      (rule object)
  ultimately show ?thesis
    using lone pair object by (intro conjI) simp_all
qed

end
